theory Spec2Isabelle
  imports Main "HOL-Library.AList"
begin

section \<open>Strings\<close>

text \<open>
  A command is a JavaScript string. It is modelled as a \<^typ>\<open>string\<close>: a list of
  8-bit characters, read as the code units U+0000 to U+00FF. Code units above U+00FF are
  outside the model.
\<close>

text \<open>
  The characters that \<^verbatim>\<open>String.prototype.trim\<close> strips and that \<^verbatim>\<open>\s\<close> matches
  (white space and line terminators): TAB, LF, VT, FF, CR, SP and NBSP in this range.
\<close>

definition whiteSpace :: "char list" where
  "whiteSpace = [CHR 0x09, CHR 0x0A, CHR 0x0B, CHR 0x0C, CHR 0x0D, CHR 0x20, CHR 0xA0]"

definition is_space :: "char \<Rightarrow> bool" where
  "is_space c = (c \<in> set whiteSpace)"

text \<open>The line terminators, which \<^verbatim>\<open>.\<close> does not match: LF and CR in this range.\<close>

definition lineTerminator :: "char list" where
  "lineTerminator = [CHR 0x0A, CHR 0x0D]"

text \<open>The word characters of \<^verbatim>\<open>\b\<close>: letters, digits and the underscore.\<close>

definition wordChars :: "char list" where
  "wordChars = ''abcdefghijklmnopqrstuvwxyzABCDEFGHIJKLMNOPQRSTUVWXYZ0123456789_''"

definition is_word_char :: "char \<Rightarrow> bool" where
  "is_word_char c = (c \<in> set wordChars)"

text \<open>\<^verbatim>\<open>String.prototype.trim\<close>: strips white space from both ends.\<close>

definition trim :: "string \<Rightarrow> string" where
  "trim s = rev (dropWhile is_space (rev (dropWhile is_space s)))"

text \<open>
  \<^verbatim>\<open>String.prototype.toLowerCase\<close> on this range: A to Z, and U+00C0 to U+00DE except
  the multiplication sign U+00D7, move up by 32; every other character stays.
\<close>

definition lower_char :: "char \<Rightarrow> char" where
  "lower_char c =
     (let n = (of_char c :: nat)
      in if 65 \<le> n \<and> n \<le> 90 then char_of (n + 32)
         else if n = 215 then c
         else if 192 \<le> n \<and> n \<le> 222 then char_of (n + 32)
         else c)"

definition toLowerCase :: "string \<Rightarrow> string" where
  "toLowerCase s = map lower_char s"

section \<open>Regular expressions\<close>

text \<open>
  The regular expression literals of the source use characters, character classes,
  \<^verbatim>\<open>.\<close>, \<^verbatim>\<open>\s\<close>, the assertions \<^verbatim>\<open>^\<close>, \<^verbatim>\<open>$\<close> and \<^verbatim>\<open>\b\<close>, sequence, alternation,
  \<^verbatim>\<open>*\<close> and \<^verbatim>\<open>+\<close>. None has a flag, a back reference or a look-around.
\<close>

datatype regex =
    Eps
  | Chr char
  | OneOf "char list"
  | NoneOf "char list"
  | AnyChar
  | Space
  | Bol
  | Eol
  | WordB
  | Seq regex regex
  | Alt regex regex
  | Star regex
  | Plus regex

text \<open>
  A position in the input: the character just before it (\<open>None\<close> at the start of the
  input) and the input from there on.
\<close>

type_synonym pos = "char option \<times> string"

definition step :: "(char \<Rightarrow> bool) \<Rightarrow> pos \<Rightarrow> pos list" where
  "step P x = (case snd x of [] \<Rightarrow> [] | d # ds \<Rightarrow> if P d then [(Some d, ds)] else [])"

definition word_before :: "pos \<Rightarrow> bool" where
  "word_before x = (case fst x of None \<Rightarrow> False | Some c \<Rightarrow> is_word_char c)"

definition word_after :: "pos \<Rightarrow> bool" where
  "word_after x = (case snd x of [] \<Rightarrow> False | c # _ \<Rightarrow> is_word_char c)"

text \<open>
  Repetition: zero or more rounds of \<open>f\<close>, each round consuming at least one character
  (the engine rejects an empty round), so the length of the input bounds the rounds.
\<close>

fun star_iter :: "(pos \<Rightarrow> pos list) \<Rightarrow> nat \<Rightarrow> pos \<Rightarrow> pos list" where
  "star_iter f 0 x = [x]"
| "star_iter f (Suc n) x =
     x # concat (map (star_iter f n) (filter (\<lambda>y. length (snd y) < length (snd x)) (f x)))"

text \<open>
  \<open>rmatch r x\<close> lists the positions at which a match of \<open>r\<close> that starts at \<open>x\<close> can end.
  The list is not in the engine's priority order: \<^verbatim>\<open>test\<close> only asks whether it is
  empty.
\<close>

primrec rmatch :: "regex \<Rightarrow> pos \<Rightarrow> pos list" where
  "rmatch Eps x = [x]"
| "rmatch (Chr c) x = step (\<lambda>d. d = c) x"
| "rmatch (OneOf cs) x = step (\<lambda>d. d \<in> set cs) x"
| "rmatch (NoneOf cs) x = step (\<lambda>d. d \<notin> set cs) x"
| "rmatch AnyChar x = step (\<lambda>d. d \<notin> set lineTerminator) x"
| "rmatch Space x = step is_space x"
| "rmatch Bol x = (if fst x = None then [x] else [])"
| "rmatch Eol x = (if snd x = [] then [x] else [])"
| "rmatch WordB x = (if word_before x \<noteq> word_after x then [x] else [])"
| "rmatch (Seq a b) x = concat (map (rmatch b) (rmatch a x))"
| "rmatch (Alt a b) x = rmatch a x @ rmatch b x"
| "rmatch (Star a) x = star_iter (rmatch a) (length (snd x)) x"
| "rmatch (Plus a) x =
     concat (map (\<lambda>y. star_iter (rmatch a) (length (snd y)) y) (rmatch a x))"

text \<open>
  \<^verbatim>\<open>RegExp.prototype.test\<close> of a regular expression without the global flag: a match
  may start at any offset of the input, the end included. \<open>matches r x\<close> says that a match
  of \<open>r\<close> starts at \<open>x\<close>; \<open>search\<close> tries the offsets from left to right.
\<close>

definition matches :: "regex \<Rightarrow> pos \<Rightarrow> bool" where
  "matches r x = (rmatch r x \<noteq> [])"

fun search :: "regex \<Rightarrow> char option \<Rightarrow> string \<Rightarrow> bool" where
  "search r p [] = matches r (p, [])"
| "search r p (c # cs) = (if matches r (p, c # cs) then True else search r (Some c) cs)"

definition test :: "regex \<Rightarrow> string \<Rightarrow> bool" where
  "test r s = search r None s"

text \<open>Notation for the literals: a word, a sequence, a choice.\<close>

definition str :: "string \<Rightarrow> regex" where
  "str s = foldr (\<lambda>c r. Seq (Chr c) r) s Eps"

definition seqs :: "regex list \<Rightarrow> regex" where
  "seqs rs = foldr Seq rs Eps"

fun alts :: "regex list \<Rightarrow> regex" where
  "alts [] = OneOf []"
| "alts [r] = r"
| "alts (r # rs) = Alt r (alts rs)"

definition words :: "string list \<Rightarrow> regex" where
  "words ws = alts (map str ws)"

section \<open>The command classifier\<close>

text \<open>The five allow patterns of \<^verbatim>\<open>isCommandDangerous\<close>, in the order of the source.\<close>

text \<open>\<^verbatim>\<open>/^systemctl\s+(status|show|list-units|list-unit-files|is-active|is-enabled|is-failed|cat|help)/\<close>\<close>

definition allow_systemctl :: regex where
  "allow_systemctl = seqs [Bol, str ''systemctl'', Plus Space,
     words [''status'', ''show'', ''list-units'', ''list-unit-files'', ''is-active'',
            ''is-enabled'', ''is-failed'', ''cat'', ''help'']]"

text \<open>\<^verbatim>\<open>/^git\s+(status|log|show|diff|branch|remote|config\s+--list|ls-files|ls-remote)/\<close>\<close>

definition allow_git :: regex where
  "allow_git = seqs [Bol, str ''git'', Plus Space,
     alts [str ''status'', str ''log'', str ''show'', str ''diff'', str ''branch'',
           str ''remote'', seqs [str ''config'', Plus Space, str ''--list''],
           str ''ls-files'', str ''ls-remote'']]"

text \<open>\<^verbatim>\<open>/^(apt|yum|dnf|pacman)\s+(list|search|show|info|query)/\<close>\<close>

definition allow_package :: regex where
  "allow_package = seqs [Bol, words [''apt'', ''yum'', ''dnf'', ''pacman''], Plus Space,
     words [''list'', ''search'', ''show'', ''info'', ''query'']]"

text \<open>\<^verbatim>\<open>/^docker\s+(ps|images|inspect|logs|version|info|system\s+df|system\s+info)/\<close>\<close>

definition allow_docker :: regex where
  "allow_docker = seqs [Bol, str ''docker'', Plus Space,
     alts [str ''ps'', str ''images'', str ''inspect'', str ''logs'', str ''version'',
           str ''info'', seqs [str ''system'', Plus Space, str ''df''],
           seqs [str ''system'', Plus Space, str ''info'']]]"

text \<open>\<^verbatim>\<open>/^kubectl\s+(get|describe|logs|explain|version|cluster-info|config\s+view)/\<close>\<close>

definition allow_kubectl :: regex where
  "allow_kubectl = seqs [Bol, str ''kubectl'', Plus Space,
     alts [str ''get'', str ''describe'', str ''logs'', str ''explain'', str ''version'',
           str ''cluster-info'', seqs [str ''config'', Plus Space, str ''view'']]]"

text \<open>The deny patterns, one definition for each literal of \<^verbatim>\<open>dangerousPatterns\<close>.\<close>

text \<open>\<^verbatim>\<open>/\brm\s+(-[rf]*\s+)*(\/|\*|\$|~)/\<close>\<close>

definition deny_rm :: regex where
  "deny_rm = seqs [WordB, str ''rm'', Plus Space,
     Star (seqs [Chr CHR ''-'', Star (OneOf ''rf''), Plus Space]),
     words [''/'', ''*'', ''$'', ''~'']]"

text \<open>\<^verbatim>\<open>/\bmv\s+.*\s+(\/|\*)/\<close>\<close>

definition deny_mv :: regex where
  "deny_mv = seqs [WordB, str ''mv'', Plus Space, Star AnyChar, Plus Space,
     words [''/'', ''*'']]"

text \<open>\<^verbatim>\<open>/\bchmod\s+[0-7]*\s+(\/|~|\*)/\<close>\<close>

definition deny_chmod :: regex where
  "deny_chmod = seqs [WordB, str ''chmod'', Plus Space, Star (OneOf ''01234567''),
     Plus Space, words [''/'', ''~'', ''*'']]"

text \<open>\<^verbatim>\<open>/\bchown\s+.*\s+(\/|~|\*)/\<close>\<close>

definition deny_chown :: regex where
  "deny_chown = seqs [WordB, str ''chown'', Plus Space, Star AnyChar, Plus Space,
     words [''/'', ''~'', ''*'']]"

text \<open>\<^verbatim>\<open>/>[^|&]*\s*(\/|~|\*)/\<close>\<close>

definition deny_redirect :: regex where
  "deny_redirect = seqs [Chr CHR ''>'', Star (NoneOf ''|&''), Star Space,
     words [''/'', ''~'', ''*'']]"

text \<open>\<^verbatim>\<open>/\bdd\s+.*of=/\<close>\<close>

definition deny_dd :: regex where
  "deny_dd = seqs [WordB, str ''dd'', Plus Space, Star AnyChar, str ''of='']"

text \<open>\<^verbatim>\<open>/\btruncate\s/\<close>\<close>

definition deny_truncate :: regex where
  "deny_truncate = seqs [WordB, str ''truncate'', Space]"

text \<open>\<^verbatim>\<open>/\b(systemctl|service)\s+(stop|start|restart|disable|enable|mask|reload)/\<close>\<close>

definition deny_service :: regex where
  "deny_service = seqs [WordB, words [''systemctl'', ''service''], Plus Space,
     words [''stop'', ''start'', ''restart'', ''disable'', ''enable'', ''mask'', ''reload'']]"

text \<open>\<^verbatim>\<open>/\b(kill|pkill|killall)\s/\<close>\<close>

definition deny_kill :: regex where
  "deny_kill = seqs [WordB, words [''kill'', ''pkill'', ''killall''], Space]"

text \<open>\<^verbatim>\<open>/\b(apt|yum|dnf|pacman)\s+(install|remove|update|upgrade|autoremove)/\<close>\<close>

definition deny_package :: regex where
  "deny_package = seqs [WordB, words [''apt'', ''yum'', ''dnf'', ''pacman''], Plus Space,
     words [''install'', ''remove'', ''update'', ''upgrade'', ''autoremove'']]"

text \<open>\<^verbatim>\<open>/\b(iptables|ufw|firewall-cmd)\s/\<close>\<close>

definition deny_firewall :: regex where
  "deny_firewall = seqs [WordB, words [''iptables'', ''ufw'', ''firewall-cmd''], Space]"

text \<open>\<^verbatim>\<open>/\bifconfig\s+.*\s+(up|down)/\<close>\<close>

definition deny_ifconfig :: regex where
  "deny_ifconfig = seqs [WordB, str ''ifconfig'', Plus Space, Star AnyChar, Plus Space,
     words [''up'', ''down'']]"

text \<open>\<^verbatim>\<open>/\b(useradd|userdel|usermod|passwd|su\s|sudo\s)/\<close>\<close>

definition deny_user :: regex where
  "deny_user = seqs [WordB,
     alts [str ''useradd'', str ''userdel'', str ''usermod'', str ''passwd'',
           seqs [str ''su'', Space], seqs [str ''sudo'', Space]]]"

text \<open>\<^verbatim>\<open>/\bcrontab\s+-[er]/\<close>\<close>

definition deny_crontab :: regex where
  "deny_crontab = seqs [WordB, str ''crontab'', Plus Space, Chr CHR ''-'', OneOf ''er'']"

text \<open>\<^verbatim>\<open>/\bgit\s+(push|pull|clone|reset\s+--hard|clean\s+-f|rm)/\<close>\<close>

definition deny_git :: regex where
  "deny_git = seqs [WordB, str ''git'', Plus Space,
     alts [str ''push'', str ''pull'', str ''clone'',
           seqs [str ''reset'', Plus Space, str ''--hard''],
           seqs [str ''clean'', Plus Space, str ''-f''], str ''rm'']]"

text \<open>\<^verbatim>\<open>/\bdocker\s+(rm|rmi|kill|stop|exec|run|build|push|pull)/\<close>\<close>

definition deny_docker :: regex where
  "deny_docker = seqs [WordB, str ''docker'', Plus Space,
     words [''rm'', ''rmi'', ''kill'', ''stop'', ''exec'', ''run'', ''build'', ''push'', ''pull'']]"

text \<open>\<^verbatim>\<open>/\bkubectl\s+(delete|apply|create|replace|patch|scale|rollout)/\<close>\<close>

definition deny_kubectl :: regex where
  "deny_kubectl = seqs [WordB, str ''kubectl'', Plus Space,
     words [''delete'', ''apply'', ''create'', ''replace'', ''patch'', ''scale'', ''rollout'']]"

text \<open>\<^verbatim>\<open>/\b(nano|vi|vim|emacs|code)\s/\<close>\<close>

definition deny_editor :: regex where
  "deny_editor = seqs [WordB, words [''nano'', ''vi'', ''vim'', ''emacs'', ''code''], Space]"

text \<open>\<^verbatim>\<open>/\b(tar|unzip|unrar)\s+.*-[xf]/\<close>\<close>

definition deny_archive :: regex where
  "deny_archive = seqs [WordB, words [''tar'', ''unzip'', ''unrar''], Plus Space,
     Star AnyChar, Chr CHR ''-'', OneOf ''xf'']"

text \<open>\<^verbatim>\<open>/\btcpdump\s/\<close>\<close>

definition deny_tcpdump :: regex where
  "deny_tcpdump = seqs [WordB, str ''tcpdump'', Space]"

text \<open>\<^verbatim>\<open>/\bwireshark\s/\<close>\<close>

definition deny_wireshark :: regex where
  "deny_wireshark = seqs [WordB, str ''wireshark'', Space]"

text \<open>\<^verbatim>\<open>/\b(gcc|g\+\+|make|cmake|javac|python\s+setup\.py\s+install)/\<close>\<close>

definition deny_compile :: regex where
  "deny_compile = seqs [WordB,
     alts [str ''gcc'', str ''g++'', str ''make'', str ''cmake'', str ''javac'',
           seqs [str ''python'', Plus Space, str ''setup.py'', Plus Space, str ''install'']]]"

text \<open>\<^verbatim>\<open>/&\s*$/\<close>\<close>

definition deny_background :: regex where
  "deny_background = seqs [Chr CHR ''&'', Star Space, Eol]"

text \<open>\<^verbatim>\<open>/\bnohup\s/\<close>\<close>

definition deny_nohup :: regex where
  "deny_nohup = seqs [WordB, str ''nohup'', Space]"

text \<open>\<^verbatim>\<open>/\|\s*(sh|bash|zsh|csh|tcsh|fish|python|perl|ruby|node)/\<close>\<close>

definition deny_pipe :: regex where
  "deny_pipe = seqs [Chr CHR ''|'', Star Space,
     words [''sh'', ''bash'', ''zsh'', ''csh'', ''tcsh'', ''fish'', ''python'', ''perl'',
            ''ruby'', ''node'']]"

definition dangerousPatterns :: "regex list" where
  "dangerousPatterns =
     [deny_rm, deny_mv, deny_chmod, deny_chown, deny_redirect, deny_dd, deny_truncate,
      deny_service, deny_kill, deny_package, deny_firewall, deny_ifconfig, deny_user,
      deny_crontab, deny_git, deny_docker, deny_kubectl, deny_editor, deny_archive,
      deny_tcpdump, deny_wireshark, deny_compile, deny_background, deny_nohup, deny_pipe]"

text \<open>
  \<^verbatim>\<open>isCommandDangerous\<close>: the five allow tests return \<open>False\<close> one after the other;
  then \<^verbatim>\<open>dangerousPatterns.some(pattern => pattern.test(cmd))\<close>.
\<close>

definition isCommandDangerous :: "string \<Rightarrow> bool" where
  "isCommandDangerous command =
     (let cmd = toLowerCase (trim command)
      in if test allow_systemctl cmd then False
         else if test allow_git cmd then False
         else if test allow_package cmd then False
         else if test allow_docker cmd then False
         else if test allow_kubectl cmd then False
         else list_ex (\<lambda>pattern. test pattern cmd) dangerousPatterns)"

section \<open>The server: inventory, registry and transport\<close>

text \<open>An entry of \<^verbatim>\<open>availableMachines\<close>, as the configuration file gives it.\<close>

record sshSpec =
  host :: string
  port :: nat
  username :: string
  password :: "string option"
  keyPath :: "string option"

record machine =
  machine_id :: string
  label :: string
  os :: string
  source :: string
  ssh :: sshSpec

text \<open>The object that \<^verbatim>\<open>buildSshConfig\<close> returns.\<close>

record sshConfig =
  cfg_host :: string
  cfg_port :: nat
  cfg_username :: string
  cfg_password :: "string option"
  cfg_privateKey :: "string option"

text \<open>An \<^verbatim>\<open>SSHClient\<close> object is known by the order of its construction.\<close>

type_synonym client = nat

text \<open>
  What the server does on the transport, in order: \<^verbatim>\<open>client.connect\<close>, the
  \<^verbatim>\<open>ready\<close> event it handles, \<^verbatim>\<open>client.exec\<close> and \<^verbatim>\<open>client.end\<close>.
\<close>

datatype event =
    Connect client sshConfig
  | Ready client
  | Exec client string
  | End client

record execResult =
  stdout :: string
  stderr :: string
  exitCode :: "int option"

text \<open>
  The promise of \<^verbatim>\<open>wrapExec\<close> rejects with the error of \<^verbatim>\<open>client.exec\<close>, resolves when
  the stream closes, or stays pending when neither happens.
\<close>

datatype execOutcome = ExecRejected string | ExecResolved execResult | ExecPending

text \<open>
  After \<^verbatim>\<open>client.connect\<close> the client emits \<^verbatim>\<open>error\<close>, or \<^verbatim>\<open>ready\<close>, or nothing; or it
  emits \<^verbatim>\<open>ready\<close> and then, while the handler waits for \<^verbatim>\<open>pwd\<close>, \<^verbatim>\<open>error\<close>: both
  listeners stay attached for the life of the client.
\<close>

datatype connectOutcome =
    ConnectError string
  | ConnectReady
  | ConnectReadyThenError string
  | ConnectPending

text \<open>
  Everything the handlers get from outside the program: the inventory loaded at startup,
  the file system read by \<^verbatim>\<open>readFileSync\<close> (\<open>Inl\<close> the error it throws), the values of
  \<^verbatim>\<open>crypto.randomUUID\<close> in the order of the calls, and the answers of the remote side,
  which may depend on all that was done on the transport before.
\<close>

record environment =
  availableMachines :: "machine list"
  readFileSync :: "string \<Rightarrow> string + string"
  randomUUID :: "nat \<Rightarrow> string"
  handshake :: "event list \<Rightarrow> client \<Rightarrow> sshConfig \<Rightarrow> connectOutcome"
  remote :: "event list \<Rightarrow> client \<Rightarrow> string \<Rightarrow> execOutcome"

text \<open>A value of the \<^verbatim>\<open>connections\<close> map.\<close>

record connInfo =
  connection_id :: string
  conn_machine_id :: string
  title :: string
  currentPath :: string
  client :: client

text \<open>
  The state of the process: the \<^verbatim>\<open>connections\<close> map in insertion order
  (\<open>AList.update\<close> is \<^verbatim>\<open>Map.prototype.set\<close>, \<open>AList.delete\<close> is \<^verbatim>\<open>delete\<close>,
  \<open>map_of\<close> is \<^verbatim>\<open>get\<close>), the transport events so far, and how many times
  \<^verbatim>\<open>crypto.randomUUID\<close> and \<^verbatim>\<open>new SSHClient\<close> have run.
\<close>

record server =
  connections :: "(string \<times> connInfo) list"
  trace :: "event list"
  uuids :: nat
  clients :: nat

definition initial :: server where
  "initial = \<lparr>connections = [], trace = [], uuids = 0, clients = 0\<rparr>"

text \<open>
  The errors a handler throws, by the place that throws them:
  \<^item> \<open>ArgumentsRequired\<close>: \<^verbatim>\<open>Both machine_id and title are required.\<close>
  \<^item> \<open>UnknownMachine\<close>: \<^verbatim>\<open>Unknown machine_id '...'.\<close>
  \<^item> \<open>CommandEmpty\<close>: \<^verbatim>\<open>Command cannot be empty.\<close>
  \<^item> \<open>ConnectionNotFound\<close>: \<^verbatim>\<open>connection_id '...' not found.\<close>
  \<^item> \<open>CommandNotAllowed\<close>:
    \<^verbatim>\<open>Command contains potentially dangerous operations and is not allowed.\<close>
  \<^item> \<open>UnknownTool\<close>: \<^verbatim>\<open>Unknown tool: ...\<close>
  \<^item> \<open>External\<close>: an error of the transport or of the file system, passed on as it is.
\<close>

datatype error =
    ArgumentsRequired
  | UnknownMachine string
  | CommandEmpty
  | ConnectionNotFound "string option"
  | CommandNotAllowed
  | UnknownTool string
  | External string

text \<open>The promise a handler returns.\<close>

datatype 'a promise = Resolved 'a | Rejected error | Pending

text \<open>The fields of a session that the answers show (the client is left out).\<close>

type_synonym summary = "string \<times> string \<times> string \<times> string"

definition summary_of :: "connInfo \<Rightarrow> summary" where
  "summary_of c = (connection_id c, conn_machine_id c, title c, currentPath c)"

datatype response =
    Machines "(string \<times> string \<times> string \<times> string) list"
  | Created summary
  | Connections "summary list"
  | Output execResult
  | Closed

text \<open>The arguments of a tool call; a missing one is \<open>None\<close>.\<close>

record arguments =
  arg_machine_id :: "string option"
  arg_title :: "string option"
  arg_connection_id :: "string option"
  arg_command :: "string option"

text \<open>\<^verbatim>\<open>!x\<close> for a string that may be missing: missing or empty.\<close>

definition falsy :: "string option \<Rightarrow> bool" where
  "falsy x = (case x of None \<Rightarrow> True | Some s \<Rightarrow> s = [])"

definition findMachine :: "environment \<Rightarrow> string \<Rightarrow> machine option" where
  "findMachine E mid = find (\<lambda>m. machine_id m = mid) (availableMachines E)"

text \<open>\<^verbatim>\<open>buildSshConfig\<close>: \<open>Inl\<close>, with its error, when \<^verbatim>\<open>readFileSync\<close> throws.\<close>

definition buildSshConfig :: "environment \<Rightarrow> machine \<Rightarrow> string + sshConfig" where
  "buildSshConfig E m =
     (let cfg = \<lparr>cfg_host = host (ssh m), cfg_port = port (ssh m),
                   cfg_username = username (ssh m),
                   cfg_password = (if falsy (password (ssh m)) then None else password (ssh m)),
                   cfg_privateKey = None\<rparr>
      in case keyPath (ssh m) of
           None \<Rightarrow> Inr cfg
         | Some path \<Rightarrow>
             if path = [] then Inr cfg
             else (case readFileSync E path of
                     Inl err \<Rightarrow> Inl err
                   | Inr key \<Rightarrow> Inr (cfg\<lparr>cfg_privateKey := Some key\<rparr>)))"

text \<open>\<^verbatim>\<open>wrapExec\<close>: one call of \<^verbatim>\<open>client.exec\<close>, and what comes of it.\<close>

definition wrapExec :: "environment \<Rightarrow> server \<Rightarrow> client \<Rightarrow> string \<Rightarrow> execOutcome \<times> server" where
  "wrapExec E st c command =
     (remote E (trace st) c command, st\<lparr>trace := trace st @ [Exec c command]\<rparr>)"

text \<open>\<^verbatim>\<open>connections.get(connection_id)\<close>, the argument possibly missing.\<close>

definition get_conn :: "server \<Rightarrow> string option \<Rightarrow> connInfo option" where
  "get_conn st k = (case k of None \<Rightarrow> None | Some i \<Rightarrow> map_of (connections st) i)"

section \<open>The tool handlers\<close>

text \<open>
  \<^verbatim>\<open>create_connection\<close>. The client and the identifier are made before the promise;
  an exception of \<^verbatim>\<open>buildSshConfig\<close> inside the promise rejects it; an \<^verbatim>\<open>error\<close>
  event rejects it; on \<^verbatim>\<open>ready\<close> the handler runs \<^verbatim>\<open>pwd\<close> and registers the session,
  or ends the client and rejects when \<^verbatim>\<open>pwd\<close> cannot run. When \<^verbatim>\<open>error\<close> comes after
  \<^verbatim>\<open>ready\<close> the promise is rejected with that error, and the \<^verbatim>\<open>ready\<close> handler goes on
  as before when \<^verbatim>\<open>pwd\<close> settles: it registers the session or ends the client, and its
  own \<^verbatim>\<open>resolve\<close> or \<^verbatim>\<open>reject\<close> has no effect any more. The state returned is the one
  after the handler is done.
\<close>

definition create_connection ::
  "environment \<Rightarrow> server \<Rightarrow> string option \<Rightarrow> string option \<Rightarrow> response promise \<times> server" where
  "create_connection E st mid ttl =
     (if falsy mid \<or> falsy ttl then (Rejected ArgumentsRequired, st)
      else case (mid, ttl) of
        (Some machine_id', Some title') \<Rightarrow>
          (case findMachine E machine_id' of
             None \<Rightarrow> (Rejected (UnknownMachine machine_id'), st)
           | Some m \<Rightarrow>
               let c = clients st;
                   cid = randomUUID E (uuids st);
                   st0 = st\<lparr>uuids := Suc (uuids st), clients := Suc (clients st)\<rparr>
               in (case buildSshConfig E m of
                     Inl e \<Rightarrow> (Rejected (External e), st0)
                   | Inr cfg \<Rightarrow>
                       let st1 = st0\<lparr>trace := trace st0 @ [Connect c cfg]\<rparr>
                       in (case handshake E (trace st0) c cfg of
                             ConnectError e \<Rightarrow> (Rejected (External e), st1)
                           | ConnectPending \<Rightarrow> (Pending, st1)
                           | ConnectReady \<Rightarrow>
                               let st2 = st1\<lparr>trace := trace st1 @ [Ready c]\<rparr>
                               in (case wrapExec E st2 c ''pwd'' of
                                     (ExecRejected e, st3) \<Rightarrow>
                                       (Rejected (External e), st3\<lparr>trace := trace st3 @ [End c]\<rparr>)
                                   | (ExecPending, st3) \<Rightarrow> (Pending, st3)
                                   | (ExecResolved r, st3) \<Rightarrow>
                                       let connInfo = \<lparr>connection_id = cid,
                                             conn_machine_id = machine_id', title = title',
                                             currentPath = trim (stdout r), client = c\<rparr>
                                       in (Resolved (Created (summary_of connInfo)),
                                           st3\<lparr>connections :=
                                             AList.update cid connInfo (connections st3)\<rparr>))
                           | ConnectReadyThenError e \<Rightarrow>
                               let st2 = st1\<lparr>trace := trace st1 @ [Ready c]\<rparr>
                               in (case wrapExec E st2 c ''pwd'' of
                                     (ExecRejected e', st3) \<Rightarrow>
                                       (Rejected (External e), st3\<lparr>trace := trace st3 @ [End c]\<rparr>)
                                   | (ExecPending, st3) \<Rightarrow> (Rejected (External e), st3)
                                   | (ExecResolved r, st3) \<Rightarrow>
                                       let connInfo = \<lparr>connection_id = cid,
                                             conn_machine_id = machine_id', title = title',
                                             currentPath = trim (stdout r), client = c\<rparr>
                                       in (Rejected (External e),
                                           st3\<lparr>connections :=
                                             AList.update cid connInfo (connections st3)\<rparr>)))))
      | _ \<Rightarrow> (Rejected ArgumentsRequired, st))"

text \<open>\<^verbatim>\<open>/^cd\\s+/\<close>, the literal that \<^verbatim>\<open>execute_command\<close> tests: at the start of the
  input \<^verbatim>\<open>cd\<close>, then a backslash (the escaped backslash of the literal), then one or
  more \<^verbatim>\<open>s\<close>.\<close>

definition cd_regex :: regex where
  "cd_regex = seqs [Bol, str ''cd'', Chr (CHR 0x5C), Plus (Chr CHR ''s'')]"

text \<open>
  \<^verbatim>\<open>execute_command\<close>: the empty check, the lookup, the command, and when the trimmed
  command passes the \<^verbatim>\<open>cd\<close> test a second call for \<^verbatim>\<open>pwd\<close> whose trimmed output
  becomes \<^verbatim>\<open>currentPath\<close> of the session object, which is the value the map holds
  under the key of the lookup.
\<close>

definition execute_command ::
  "environment \<Rightarrow> server \<Rightarrow> string option \<Rightarrow> string option \<Rightarrow> response promise \<times> server" where
  "execute_command E st cid command =
     (case command of
        None \<Rightarrow> (Rejected CommandEmpty, st)
      | Some cmd \<Rightarrow>
          if trim cmd = [] then (Rejected CommandEmpty, st)
          else (case get_conn st cid of
                  None \<Rightarrow> (Rejected (ConnectionNotFound cid), st)
                | Some conn \<Rightarrow>
                    (case wrapExec E st (client conn) cmd of
                       (ExecRejected e, st1) \<Rightarrow> (Rejected (External e), st1)
                     | (ExecPending, st1) \<Rightarrow> (Pending, st1)
                     | (ExecResolved r, st1) \<Rightarrow>
                         if test cd_regex (trim cmd)
                         then (case wrapExec E st1 (client conn) ''pwd'' of
                                 (ExecRejected e, st2) \<Rightarrow> (Rejected (External e), st2)
                               | (ExecPending, st2) \<Rightarrow> (Pending, st2)
                               | (ExecResolved cwd, st2) \<Rightarrow>
                                   (Resolved (Output r),
                                    st2\<lparr>connections :=
                                      (case cid of None \<Rightarrow> connections st2
                                       | Some k \<Rightarrow>
                                           AList.update k
                                             (conn\<lparr>currentPath := trim (stdout cwd)\<rparr>)
                                             (connections st2))\<rparr>))
                         else (Resolved (Output r), st1))))"

text \<open>
  \<^verbatim>\<open>secure_execute_command\<close>: the empty check, the lookup, the classifier, the command.
\<close>

definition secure_execute_command ::
  "environment \<Rightarrow> server \<Rightarrow> string option \<Rightarrow> string option \<Rightarrow> response promise \<times> server" where
  "secure_execute_command E st cid command =
     (case command of
        None \<Rightarrow> (Rejected CommandEmpty, st)
      | Some cmd \<Rightarrow>
          if trim cmd = [] then (Rejected CommandEmpty, st)
          else (case get_conn st cid of
                  None \<Rightarrow> (Rejected (ConnectionNotFound cid), st)
                | Some conn \<Rightarrow>
                    if isCommandDangerous cmd then (Rejected CommandNotAllowed, st)
                    else (case wrapExec E st (client conn) cmd of
                            (ExecRejected e, st1) \<Rightarrow> (Rejected (External e), st1)
                          | (ExecPending, st1) \<Rightarrow> (Pending, st1)
                          | (ExecResolved r, st1) \<Rightarrow> (Resolved (Output r), st1))))"

text \<open>\<^verbatim>\<open>close_connection\<close>: the lookup, \<^verbatim>\<open>client.end\<close>, \<^verbatim>\<open>connections.delete\<close>.\<close>

definition close_connection ::
  "server \<Rightarrow> string option \<Rightarrow> response promise \<times> server" where
  "close_connection st cid =
     (case get_conn st cid of
        None \<Rightarrow> (Rejected (ConnectionNotFound cid), st)
      | Some conn \<Rightarrow>
          (Resolved Closed,
           st\<lparr>trace := trace st @ [End (client conn)],
              connections := (case cid of None \<Rightarrow> connections st
                              | Some k \<Rightarrow> AList.delete k (connections st))\<rparr>))"

definition get_available_connections :: "environment \<Rightarrow> response" where
  "get_available_connections E =
     Machines (map (\<lambda>m. (machine_id m, label m, os m, source m)) (availableMachines E))"

definition get_connections :: "server \<Rightarrow> response" where
  "get_connections st = Connections (map (summary_of \<circ> snd) (connections st))"

text \<open>The \<^verbatim>\<open>CallTool\<close> handler: the tool by its name.\<close>

definition callTool ::
  "environment \<Rightarrow> server \<Rightarrow> string \<Rightarrow> arguments \<Rightarrow> response promise \<times> server" where
  "callTool E st name args =
     (if name = ''get_available_connections'' then (Resolved (get_available_connections E), st)
      else if name = ''create_connection''
        then create_connection E st (arg_machine_id args) (arg_title args)
      else if name = ''get_connections'' then (Resolved (get_connections st), st)
      else if name = ''execute_command''
        then execute_command E st (arg_connection_id args) (arg_command args)
      else if name = ''secure_execute_command''
        then secure_execute_command E st (arg_connection_id args) (arg_command args)
      else if name = ''close_connection'' then close_connection st (arg_connection_id args)
      else (Rejected (UnknownTool name), st))"

text \<open>
  A run of the process: tool calls handled one after the other, each from the state the
  one before left. Calls that overlap in time are outside the model.
\<close>

fun run ::
  "environment \<Rightarrow> server \<Rightarrow> (string \<times> arguments) list \<Rightarrow> response promise list \<times> server" where
  "run E st [] = ([], st)"
| "run E st ((name, args) # calls) =
     (let (p, st') = callTool E st name args;
          (ps, st'') = run E st' calls
      in (p # ps, st''))"

text \<open>
  The \<^verbatim>\<open>connection_id\<close> that a call returned, when it is a \<^verbatim>\<open>create_connection\<close> that
  resolved, and those of a run in the order of the calls.
\<close>

definition created_id :: "response promise \<Rightarrow> string option" where
  "created_id p = (case p of Resolved (Created s) \<Rightarrow> Some (fst s) | _ \<Rightarrow> None)"

definition created_ids :: "response promise list \<Rightarrow> string list" where
  "created_ids ps = List.map_filter created_id ps"

section \<open>A concrete scenario\<close>

text \<open>
  One machine (the first of the README's \<^verbatim>\<open>machines.json\<close>), a remote side on which every
  handshake and every command succeeds and \<^verbatim>\<open>pwd\<close> prints \<^verbatim>\<open>/tmp\<close> once \<^verbatim>\<open>cd /tmp\<close>
  has run on the client and \<^verbatim>\<open>/home/user\<close> before, and identifiers \<^verbatim>\<open>u\<close>, \<^verbatim>\<open>uu\<close>,
  \<^verbatim>\<open>uuu\<close> and so on.
\<close>

definition example_machine :: machine where
  "example_machine =
     \<lparr>machine_id = ''todo-server-01'', label = ''Todo server'', os = ''ubuntu'',
      source = ''digitalocean'',
      ssh = \<lparr>host = ''192.168.1.11'', port = 22, username = ''user'',
             password = Some ''your_password_here'', keyPath = None\<rparr>\<rparr>"

definition example_config :: sshConfig where
  "example_config =
     \<lparr>cfg_host = ''192.168.1.11'', cfg_port = 22, cfg_username = ''user'',
      cfg_password = Some ''your_password_here'', cfg_privateKey = None\<rparr>"

definition example_remote :: "event list \<Rightarrow> client \<Rightarrow> string \<Rightarrow> execOutcome" where
  "example_remote tr c command =
     (if command = ''pwd''
      then ExecResolved
             \<lparr>stdout = (if Exec c ''cd /tmp'' \<in> set tr then ''/tmp'' else ''/home/user'')
                        @ [CHR 0x0A],
              stderr = [], exitCode = Some 0\<rparr>
      else ExecResolved \<lparr>stdout = [], stderr = [], exitCode = Some 0\<rparr>)"

definition example_environment :: environment where
  "example_environment =
     \<lparr>availableMachines = [example_machine],
      readFileSync = (\<lambda>path. Inl ''ENOENT''),
      randomUUID = (\<lambda>n. replicate (Suc n) CHR ''u''),
      handshake = (\<lambda>tr c cfg. ConnectReady),
      remote = example_remote\<rparr>"

text \<open>The state after one \<^verbatim>\<open>create_connection\<close> in that scenario.\<close>

definition example_session :: connInfo where
  "example_session =
     \<lparr>connection_id = ''u'', conn_machine_id = ''todo-server-01'', title = ''demo'',
      currentPath = ''/home/user'', client = 0\<rparr>"

definition example_server :: server where
  "example_server =
     \<lparr>connections = [(''u'', example_session)],
      trace = [Connect 0 example_config, Ready 0, Exec 0 ''pwd''],
      uuids = 1, clients = 1\<rparr>"

text \<open>The same scenario with a remote side on which no command can be started.\<close>

definition example_closed_channel :: environment where
  "example_closed_channel =
     example_environment\<lparr>remote := (\<lambda>tr c command. ExecRejected ''Channel open failure'')\<rparr>"

text \<open>The same scenario with a remote side that refuses every connection.\<close>

definition example_refused :: environment where
  "example_refused =
     example_environment\<lparr>handshake := (\<lambda>tr c cfg. ConnectError ''ECONNREFUSED'')\<rparr>"

text \<open>
  The same scenario with a connection that breaks after the handshake, while \<^verbatim>\<open>pwd\<close>
  still answers.
\<close>

definition example_late_error :: environment where
  "example_late_error =
     example_environment\<lparr>handshake := (\<lambda>tr c cfg. ConnectReadyThenError ''ECONNRESET'')\<rparr>"

text \<open>Three calls: open a session, close it, open another.\<close>

definition example_calls :: "(string \<times> arguments) list" where
  "example_calls =
     [(''create_connection'',
       \<lparr>arg_machine_id = Some ''todo-server-01'', arg_title = Some ''demo'',
        arg_connection_id = None, arg_command = None\<rparr>),
      (''close_connection'',
       \<lparr>arg_machine_id = None, arg_title = None,
        arg_connection_id = Some ''u'', arg_command = None\<rparr>),
      (''create_connection'',
       \<lparr>arg_machine_id = Some ''todo-server-01'', arg_title = Some ''again'',
        arg_connection_id = None, arg_command = None\<rparr>)]"

text \<open>The state after the session of the scenario is closed.\<close>

definition example_closed :: server where
  "example_closed =
     example_server\<lparr>trace := trace example_server @ [End 0], connections := []\<rparr>"

section \<open>Facts about the matcher\<close>

lemma seqs_Nil: "seqs [] = Eps"
  by (simp add: seqs_def)

lemma seqs_Cons: "seqs (r # rs) = Seq r (seqs rs)"
  by (simp add: seqs_def)

lemma step_nonempty: "z \<in> set (step P x) \<Longrightarrow> \<exists>c. snd x = c # snd z \<and> P c"
  by (cases "snd x") (auto simp: step_def split: if_splits)

lemma in_Seq: "y \<in> set (rmatch (Seq a b) x) \<Longrightarrow> \<exists>z\<in>set (rmatch a x). y \<in> set (rmatch b z)"
  by auto

lemma in_Plus: "y \<in> set (rmatch (Plus a) x) \<Longrightarrow> \<exists>z. z \<in> set (rmatch a x)"
  by auto




text \<open>A word matches only where the input spells it.\<close>

lemma in_str: "y \<in> set (rmatch (str w) x) \<Longrightarrow> snd x = w @ snd y"
proof (induction w arbitrary: x)
  case Nil
  then show ?case by (simp add: str_def)
next
  case (Cons a w)
  from Cons.prems obtain z
    where z: "z \<in> set (rmatch (Chr a) x)" and y: "y \<in> set (rmatch (str w) z)"
    by (auto simp: str_def)
  from z have "snd x = a # snd z" using step_nonempty [of z _ x] by auto
  with Cons.IH [OF y] show ?case by simp
qed


text \<open>A pattern that begins with \<^verbatim>\<open>^\<close> matches at the start of the input or nowhere.\<close>

lemma search_Bol: "search (Seq Bol r) (Some c) s = False"
  by (induction s arbitrary: c) (auto simp: matches_def)

lemma test_Bol: "test (Seq Bol r) s = matches r (None, s)"
  by (cases s) (auto simp: test_def search_Bol matches_def)

text \<open>A match that starts after a prefix of the input is found by the search.\<close>

lemma search_append:
  "matches r (if pre = [] then p else Some (last pre), s) \<Longrightarrow> search r p (pre @ s)"
proof (induction pre arbitrary: p)
  case Nil
  then show ?case by (cases s) auto
next
  case (Cons a pre)
  show ?case
  proof (cases "pre = []")
    case True
    with Cons.prems have "matches r (Some a, s)" by simp
    then have "search r (Some a) s" by (cases s) auto
    with True show ?thesis by simp
  next
    case False
    with Cons.prems have "matches r (if pre = [] then Some a else Some (last pre), s)"
      by simp
    from Cons.IH [OF this] show ?thesis by simp
  qed
qed

lemma test_at_offset:
  "matches r (if pre = [] then None else Some (last pre), s) \<Longrightarrow> test r (pre @ s)"
  by (simp add: test_def search_append)

section \<open>The classifier: what it allows and what it denies\<close>

lemma no_deny_empty: "\<not> list_ex (\<lambda>pattern. test pattern []) dangerousPatterns"
  by code_simp

lemma dangerous_not_empty: "isCommandDangerous c \<Longrightarrow> trim c \<noteq> []"
  using no_deny_empty by (auto simp: isCommandDangerous_def toLowerCase_def split: if_splits)

text \<open>
  C3. The allow patterns are tested first: a command whose trimmed, lower-cased form
  passes one of the five allow tests is not dangerous, whatever the deny patterns say
  of it.
\<close>

theorem allow_list_precedence:
  assumes "cmd = toLowerCase (trim command)"
    and "test allow_systemctl cmd \<or> test allow_git cmd \<or> test allow_package cmd
         \<or> test allow_docker cmd \<or> test allow_kubectl cmd"
  shows "\<not> isCommandDangerous command"
  using assms by (auto simp: isCommandDangerous_def)

text \<open>
  The command \<^verbatim>\<open>git log | sh\<close> passes the allow test for git and the deny test for a pipe
  into a shell, and is not dangerous.
\<close>

theorem allow_list_precedence_witness:
  "''git log | sh'' = toLowerCase (trim ''git log | sh'')
   \<and> test allow_git ''git log | sh''
   \<and> test deny_pipe ''git log | sh''
   \<and> list_ex (\<lambda>pattern. test pattern ''git log | sh'') dangerousPatterns
   \<and> \<not> isCommandDangerous ''git log | sh''"
proof -
  have n: "''git log | sh'' = toLowerCase (trim ''git log | sh'')" by code_simp
  have a: "test allow_git ''git log | sh''" by code_simp
  have d: "test deny_pipe ''git log | sh''" by code_simp
  have l: "list_ex (\<lambda>pattern. test pattern ''git log | sh'') dangerousPatterns" by code_simp
  from a have "test allow_systemctl ''git log | sh'' \<or> test allow_git ''git log | sh''
      \<or> test allow_package ''git log | sh'' \<or> test allow_docker ''git log | sh''
      \<or> test allow_kubectl ''git log | sh''" by blast
  from allow_list_precedence [OF n this] n a d l show ?thesis by blast
qed

text \<open>
  C4. A command whose trimmed, lower-cased form passes no allow test and no deny test is
  not dangerous.
\<close>

theorem default_permit:
  assumes "cmd = toLowerCase (trim command)"
    and "\<not> (test allow_systemctl cmd \<or> test allow_git cmd \<or> test allow_package cmd
            \<or> test allow_docker cmd \<or> test allow_kubectl cmd)"
    and "\<not> list_ex (\<lambda>pattern. test pattern cmd) dangerousPatterns"
  shows "\<not> isCommandDangerous command"
  using assms by (auto simp: isCommandDangerous_def)

text \<open>The command \<^verbatim>\<open>echo hello\<close> is such a command.\<close>

theorem default_permit_witness:
  "''echo hello'' = toLowerCase (trim ''echo hello'')
   \<and> \<not> (test allow_systemctl ''echo hello'' \<or> test allow_git ''echo hello''
          \<or> test allow_package ''echo hello'' \<or> test allow_docker ''echo hello''
          \<or> test allow_kubectl ''echo hello'')
   \<and> \<not> list_ex (\<lambda>pattern. test pattern ''echo hello'') dangerousPatterns
   \<and> \<not> isCommandDangerous ''echo hello''"
proof -
  have n: "''echo hello'' = toLowerCase (trim ''echo hello'')" by code_simp
  have a: "\<not> (test allow_systemctl ''echo hello'' \<or> test allow_git ''echo hello''
          \<or> test allow_package ''echo hello'' \<or> test allow_docker ''echo hello''
          \<or> test allow_kubectl ''echo hello'')" by code_simp
  have d: "\<not> list_ex (\<lambda>pattern. test pattern ''echo hello'') dangerousPatterns" by code_simp
  from default_permit [OF n a d] n a d show ?thesis by blast
qed

lemma denied_rm: "isCommandDangerous ''rm -rf /''"
  by code_simp

lemma denied_sudo: "isCommandDangerous ''sudo reboot''"
  by code_simp

lemma denied_docker_run: "isCommandDangerous ''docker run ubuntu''"
  by code_simp

lemma denied_kubectl_delete: "isCommandDangerous ''kubectl delete pod x''"
  by code_simp

lemma allowed_systemctl_status: "\<not> isCommandDangerous ''systemctl status nginx''"
  by code_simp

lemma allowed_git_log: "\<not> isCommandDangerous ''git log''"
  by code_simp

lemma allowed_kubectl_get: "\<not> isCommandDangerous ''kubectl get pods''"
  by code_simp

text \<open>
  C5. The classifier denies \<^verbatim>\<open>rm -rf /\<close>, \<^verbatim>\<open>sudo reboot\<close>, \<^verbatim>\<open>docker run ubuntu\<close> and
  \<^verbatim>\<open>kubectl delete pod x\<close>, and allows \<^verbatim>\<open>systemctl status nginx\<close>, \<^verbatim>\<open>git log\<close> and
  \<^verbatim>\<open>kubectl get pods\<close>.
\<close>

theorem classifier_examples:
  "isCommandDangerous ''rm -rf /''
   \<and> isCommandDangerous ''sudo reboot''
   \<and> isCommandDangerous ''docker run ubuntu''
   \<and> isCommandDangerous ''kubectl delete pod x''
   \<and> \<not> isCommandDangerous ''systemctl status nginx''
   \<and> \<not> isCommandDangerous ''git log''
   \<and> \<not> isCommandDangerous ''kubectl get pods''"
  using denied_rm denied_sudo denied_docker_run denied_kubectl_delete
    allowed_systemctl_status allowed_git_log allowed_kubectl_get
  by blast

text \<open>
  A deny pattern is tested at every offset of the trimmed, lower-cased command: when no
  allow test passes and a deny pattern matches from some position on, after any prefix,
  the command is dangerous.
\<close>

lemma deny_at_offset:
  assumes "cmd = toLowerCase (trim command)"
    and "\<not> (test allow_systemctl cmd \<or> test allow_git cmd \<or> test allow_package cmd
            \<or> test allow_docker cmd \<or> test allow_kubectl cmd)"
    and "cmd = pre @ rest"
    and "pattern \<in> set dangerousPatterns"
    and "matches pattern (if pre = [] then None else Some (last pre), rest)"
  shows "isCommandDangerous command"
proof -
  from assms(3,5) have "test pattern cmd" by (simp add: test_at_offset)
  with assms(4) have "list_ex (\<lambda>pattern. test pattern cmd) dangerousPatterns"
    by (auto simp: list_ex_iff)
  with assms(1,2) show ?thesis by (auto simp: isCommandDangerous_def)
qed

text \<open>Where the input spells a word, the word matches, and so does a choice that has it.\<close>

lemma str_here:
  "(if w = [] then p else Some (last w), rest) \<in> set (rmatch (str w) (p, w @ rest))"
proof (induction w arbitrary: p)
  case Nil
  show ?case by (simp add: str_def)
next
  case (Cons a w)
  have "(Some a, w @ rest) \<in> set (rmatch (Chr a) (p, (a # w) @ rest))"
    by (simp add: step_def)
  moreover from Cons.IH [of "Some a"]
  have "(Some (last (a # w)), rest) \<in> set (rmatch (str w) (Some a, w @ rest))"
    by (cases "w = []") simp_all
  ultimately have "(Some (last (a # w)), rest)
      \<in> set (rmatch (Seq (Chr a) (str w)) (p, (a # w) @ rest))"
    by (simp del: rmatch.simps(2) add: bexI [of _ "(Some a, w @ rest)"])
  then show ?case by (simp add: str_def)
qed

lemma alts_here: "r \<in> set rs \<Longrightarrow> y \<in> set (rmatch r x) \<Longrightarrow> y \<in> set (rmatch (alts rs) x)"
  by (induction rs rule: alts.induct) auto

lemma words_here:
  assumes "w \<in> set ws" and "w \<noteq> []"
  shows "(Some (last w), rest) \<in> set (rmatch (words ws) (p, w @ rest))"
proof -
  from assms(1) have "str w \<in> set (map str ws)" by simp
  moreover from str_here [of w p rest] assms(2)
  have "(Some (last w), rest) \<in> set (rmatch (str w) (p, w @ rest))" by simp
  ultimately show ?thesis unfolding words_def by (rule alts_here)
qed

lemma Seq_here: "z \<in> set (rmatch a x) \<Longrightarrow> y \<in> set (rmatch b z) \<Longrightarrow> y \<in> set (rmatch (Seq a b) x)"
  by auto

lemma Space_here: "is_space c \<Longrightarrow> (Some c, rest) \<in> set (rmatch Space (p, c # rest))"
  by (simp add: step_def)

lemma WordB_here: "\<not> word_before x \<Longrightarrow> word_after x \<Longrightarrow> x \<in> set (rmatch WordB x)"
  by simp

lemma matches_here: "y \<in> set (rmatch r x) \<Longrightarrow> matches r x"
  by (auto simp: matches_def)

text \<open>
  The shape of the keyword patterns: a word boundary, one of the words, and for most of
  them a white space character.
\<close>

lemma boundary_words_space:
  assumes "w \<in> set ws" and "w \<noteq> []" and "is_word_char (hd w)" and "is_space c"
    and "\<not> word_before (p, w @ c # post)"
  shows "matches (seqs [WordB, words ws, Space]) (p, w @ c # post)"
proof -
  from assms(2,3) have "word_after (p, w @ c # post)"
    by (cases w) (simp_all add: word_after_def)
  with assms(5) have 1: "(p, w @ c # post) \<in> set (rmatch WordB (p, w @ c # post))"
    by (rule WordB_here)
  from words_here [OF assms(1,2)]
  have 2: "(Some (last w), c # post) \<in> set (rmatch (words ws) (p, w @ c # post))" .
  from assms(4) have 3: "(Some c, post) \<in> set (rmatch Space (Some (last w), c # post))"
    by (rule Space_here)
  have 4: "(Some c, post) \<in> set (rmatch Eps (Some c, post))" by simp
  have "(Some c, post) \<in> set (rmatch (seqs [WordB, words ws, Space]) (p, w @ c # post))"
    unfolding seqs_Cons seqs_Nil
    by (rule Seq_here [OF 1], rule Seq_here [OF 2], rule Seq_here [OF 3], rule 4)
  then show ?thesis by (rule matches_here)
qed

lemma boundary_alts:
  assumes "r \<in> set rs" and "y \<in> set (rmatch r (p, s))"
    and "\<not> word_before (p, s)" and "word_after (p, s)"
  shows "matches (seqs [WordB, alts rs]) (p, s)"
proof -
  from assms(3,4) have 1: "(p, s) \<in> set (rmatch WordB (p, s))" by (rule WordB_here)
  from alts_here [OF assms(1,2)] have 2: "y \<in> set (rmatch (alts rs) (p, s))" .
  have 3: "y \<in> set (rmatch Eps y)" by simp
  have "y \<in> set (rmatch (seqs [WordB, alts rs]) (p, s))"
    unfolding seqs_Cons seqs_Nil
    by (rule Seq_here [OF 1], rule Seq_here [OF 2], rule 3)
  then show ?thesis by (rule matches_here)
qed

lemma word_space_here:
  assumes "w \<noteq> []" and "is_space c"
  shows "(Some c, post) \<in> set (rmatch (seqs [str w, Space]) (p, w @ c # post))"
proof -
  from str_here [of w p "c # post"] assms(1)
  have 1: "(Some (last w), c # post) \<in> set (rmatch (str w) (p, w @ c # post))" by simp
  from assms(2) have 2: "(Some c, post) \<in> set (rmatch Space (Some (last w), c # post))"
    by (rule Space_here)
  have 3: "(Some c, post) \<in> set (rmatch Eps (Some c, post))" by simp
  show ?thesis
    unfolding seqs_Cons seqs_Nil
    by (rule Seq_here [OF 1], rule Seq_here [OF 2], rule 3)
qed

text \<open>The keywords of the deny patterns that ask for white space after the keyword.\<close>

lemma spaced_keyword_pattern:
  assumes "w \<in> set [''truncate'', ''kill'', ''pkill'', ''killall'', ''iptables'', ''ufw'',
             ''firewall-cmd'', ''su'', ''sudo'', ''nano'', ''vi'', ''vim'', ''emacs'', ''code'',
             ''tcpdump'', ''wireshark'', ''nohup'']"
    and "is_space c"
    and "\<not> word_before (p, w @ c # post)"
  shows "\<exists>pattern \<in> set dangerousPatterns. matches pattern (p, w @ c # post)"
proof -
  have first: "list_all (\<lambda>w. w \<noteq> [] \<and> is_word_char (hd w))
      [''truncate'', ''kill'', ''pkill'', ''killall'', ''iptables'', ''ufw'',
       ''firewall-cmd'', ''su'', ''sudo'', ''nano'', ''vi'', ''vim'', ''emacs'', ''code'',
       ''tcpdump'', ''wireshark'', ''nohup'']"
    by code_simp
  with assms(1) have w: "w \<noteq> []" "is_word_char (hd w)"
    unfolding list_all_iff by blast+
  then have after: "word_after (p, w @ c # post)"
    by (cases w) (simp_all add: word_after_def)
  have in_list: "deny_truncate \<in> set dangerousPatterns" "deny_kill \<in> set dangerousPatterns"
    "deny_firewall \<in> set dangerousPatterns" "deny_user \<in> set dangerousPatterns"
    "deny_editor \<in> set dangerousPatterns" "deny_tcpdump \<in> set dangerousPatterns"
    "deny_wireshark \<in> set dangerousPatterns" "deny_nohup \<in> set dangerousPatterns"
    by (simp_all add: dangerousPatterns_def)
  have parts: "[''truncate'', ''kill'', ''pkill'', ''killall'', ''iptables'', ''ufw'',
       ''firewall-cmd'', ''su'', ''sudo'', ''nano'', ''vi'', ''vim'', ''emacs'', ''code'',
       ''tcpdump'', ''wireshark'', ''nohup'']
    = [''truncate''] @ [''kill'', ''pkill'', ''killall'']
      @ [''iptables'', ''ufw'', ''firewall-cmd''] @ [''su'', ''sudo'']
      @ [''nano'', ''vi'', ''vim'', ''emacs'', ''code''] @ [''tcpdump'']
      @ [''wireshark''] @ [''nohup'']"
    by (simp only: append.simps)
  from assms(1)
  have "w \<in> set [''truncate''] \<or> w \<in> set [''kill'', ''pkill'', ''killall'']
    \<or> w \<in> set [''iptables'', ''ufw'', ''firewall-cmd''] \<or> w \<in> set [''su'', ''sudo'']
    \<or> w \<in> set [''nano'', ''vi'', ''vim'', ''emacs'', ''code''] \<or> w \<in> set [''tcpdump'']
    \<or> w \<in> set [''wireshark''] \<or> w \<in> set [''nohup'']"
    by (simp only: parts set_append Un_iff)
  then show ?thesis
  proof (elim disjE)
    assume 1: "w \<in> set [''truncate'']"
    from boundary_words_space [OF 1 w assms(2,3)]
    have "matches deny_truncate (p, w @ c # post)" by (simp add: deny_truncate_def words_def)
    with in_list(1) show ?thesis by blast
  next
    assume 2: "w \<in> set [''kill'', ''pkill'', ''killall'']"
    from boundary_words_space [OF 2 w assms(2,3)]
    have "matches deny_kill (p, w @ c # post)" by (simp add: deny_kill_def words_def)
    with in_list(2) show ?thesis by blast
  next
    assume 3: "w \<in> set [''iptables'', ''ufw'', ''firewall-cmd'']"
    from boundary_words_space [OF 3 w assms(2,3)]
    have "matches deny_firewall (p, w @ c # post)" by (simp add: deny_firewall_def words_def)
    with in_list(3) show ?thesis by blast
  next
    assume "w \<in> set [''su'', ''sudo'']"
    then have "w = ''su'' \<or> w = ''sudo''"
      by (simp only: set_simps insert_iff empty_iff simp_thms)
    then have "seqs [str w, Space]
        \<in> set [str ''useradd'', str ''userdel'', str ''usermod'', str ''passwd'',
               seqs [str ''su'', Space], seqs [str ''sudo'', Space]]"
      by (elim disjE) (simp_all only: set_simps insert_iff simp_thms)
    from boundary_alts [OF this word_space_here [OF w(1) assms(2)] assms(3) after]
    have "matches deny_user (p, w @ c # post)" by (simp only: deny_user_def)
    with in_list(4) show ?thesis by blast
  next
    assume 5: "w \<in> set [''nano'', ''vi'', ''vim'', ''emacs'', ''code'']"
    from boundary_words_space [OF 5 w assms(2,3)]
    have "matches deny_editor (p, w @ c # post)" by (simp add: deny_editor_def words_def)
    with in_list(5) show ?thesis by blast
  next
    assume 6: "w \<in> set [''tcpdump'']"
    from boundary_words_space [OF 6 w assms(2,3)]
    have "matches deny_tcpdump (p, w @ c # post)" by (simp add: deny_tcpdump_def words_def)
    with in_list(6) show ?thesis by blast
  next
    assume 7: "w \<in> set [''wireshark'']"
    from boundary_words_space [OF 7 w assms(2,3)]
    have "matches deny_wireshark (p, w @ c # post)" by (simp add: deny_wireshark_def words_def)
    with in_list(7) show ?thesis by blast
  next
    assume 8: "w \<in> set [''nohup'']"
    from boundary_words_space [OF 8 w assms(2,3)]
    have "matches deny_nohup (p, w @ c # post)" by (simp add: deny_nohup_def words_def)
    with in_list(8) show ?thesis by blast
  qed
qed

text \<open>
  C9, as the code has it. The deny patterns are tested at every offset of the trimmed,
  lower-cased command, and the keyword patterns ask for more than the keyword: a word
  boundary before it and a white space character after it. So a command that passes no
  allow test and has one of the keywords \<^verbatim>\<open>truncate\<close>, \<^verbatim>\<open>kill\<close>, \<^verbatim>\<open>pkill\<close>, \<^verbatim>\<open>killall\<close>,
  \<^verbatim>\<open>iptables\<close>, \<^verbatim>\<open>ufw\<close>, \<^verbatim>\<open>firewall-cmd\<close>, \<^verbatim>\<open>su\<close>, \<^verbatim>\<open>sudo\<close>, \<^verbatim>\<open>nano\<close>, \<^verbatim>\<open>vi\<close>,
  \<^verbatim>\<open>vim\<close>, \<^verbatim>\<open>emacs\<close>, \<^verbatim>\<open>code\<close>, \<^verbatim>\<open>tcpdump\<close>, \<^verbatim>\<open>wireshark\<close>, \<^verbatim>\<open>nohup\<close> anywhere in it, at the
  start of the command or after a character that is not a word character, and followed by
  a white space character, is dangerous.
\<close>

theorem deny_keyword_anywhere:
  assumes "cmd = toLowerCase (trim command)"
    and "\<not> (test allow_systemctl cmd \<or> test allow_git cmd \<or> test allow_package cmd
            \<or> test allow_docker cmd \<or> test allow_kubectl cmd)"
    and "cmd = pre @ w @ c # post"
    and "w \<in> set [''truncate'', ''kill'', ''pkill'', ''killall'', ''iptables'', ''ufw'',
             ''firewall-cmd'', ''su'', ''sudo'', ''nano'', ''vi'', ''vim'', ''emacs'', ''code'',
             ''tcpdump'', ''wireshark'', ''nohup'']"
    and "is_space c"
    and "pre = [] \<or> \<not> is_word_char (last pre)"
  shows "isCommandDangerous command"
proof -
  from assms(6)
  have "\<not> word_before (if pre = [] then None else Some (last pre), w @ c # post)"
    by (auto simp: word_before_def)
  from spaced_keyword_pattern [OF assms(4,5) this]
  obtain pattern where "pattern \<in> set dangerousPatterns"
    and "matches pattern (if pre = [] then None else Some (last pre), w @ c # post)"
    by blast
  with assms(1,2,3) show ?thesis by (rule deny_at_offset)
qed

text \<open>
  The commands \<^verbatim>\<open>echo kill switch\<close> and \<^verbatim>\<open>echo sudo hello\<close>: the keyword stands after the
  prefix \<^verbatim>\<open>echo \<close> and before a space.
\<close>

theorem deny_keyword_anywhere_witness:
  "''echo kill switch'' = ''echo '' @ ''kill'' @ CHR '' '' # ''switch''
   \<and> ''echo sudo hello'' = ''echo '' @ ''sudo'' @ CHR '' '' # ''hello''
   \<and> is_space CHR '' ''
   \<and> isCommandDangerous ''echo kill switch''
   \<and> isCommandDangerous ''echo sudo hello''"
proof -
  have n1: "''echo kill switch'' = toLowerCase (trim ''echo kill switch'')" by code_simp
  have a1: "\<not> (test allow_systemctl ''echo kill switch'' \<or> test allow_git ''echo kill switch''
      \<or> test allow_package ''echo kill switch'' \<or> test allow_docker ''echo kill switch''
      \<or> test allow_kubectl ''echo kill switch'')" by code_simp
  have s1: "''echo kill switch'' = ''echo '' @ ''kill'' @ CHR '' '' # ''switch''" by simp
  have n2: "''echo sudo hello'' = toLowerCase (trim ''echo sudo hello'')" by code_simp
  have a2: "\<not> (test allow_systemctl ''echo sudo hello'' \<or> test allow_git ''echo sudo hello''
      \<or> test allow_package ''echo sudo hello'' \<or> test allow_docker ''echo sudo hello''
      \<or> test allow_kubectl ''echo sudo hello'')" by code_simp
  have s2: "''echo sudo hello'' = ''echo '' @ ''sudo'' @ CHR '' '' # ''hello''" by simp
  have sp: "is_space CHR '' ''" by code_simp
  have b: "''echo '' = [] \<or> \<not> is_word_char (last ''echo '')" by code_simp
  have k1: "''kill'' \<in> set [''truncate'', ''kill'', ''pkill'', ''killall'', ''iptables'', ''ufw'',
             ''firewall-cmd'', ''su'', ''sudo'', ''nano'', ''vi'', ''vim'', ''emacs'', ''code'',
             ''tcpdump'', ''wireshark'', ''nohup'']" by simp
  have k2: "''sudo'' \<in> set [''truncate'', ''kill'', ''pkill'', ''killall'', ''iptables'', ''ufw'',
             ''firewall-cmd'', ''su'', ''sudo'', ''nano'', ''vi'', ''vim'', ''emacs'', ''code'',
             ''tcpdump'', ''wireshark'', ''nohup'']" by simp
  from deny_keyword_anywhere [OF n1 a1 s1 k1 sp b] deny_keyword_anywhere [OF n2 a2 s2 k2 sp b]
    s1 s2 sp
  show ?thesis by blast
qed

text \<open>
  A keyword as a bare substring is not enough. The keyword \<^verbatim>\<open>kill\<close> is inside each of
  \<^verbatim>\<open>echo skill x\<close> (no word boundary before it), \<^verbatim>\<open>echo kill\<close> (nothing after it) and
  \<^verbatim>\<open>echo killer app\<close> (no white space after it); none passes an allow test, and none is
  dangerous.
\<close>

theorem deny_keyword_substring_counterexample:
  "''echo skill x'' = toLowerCase (trim ''echo skill x'')
   \<and> ''echo skill x'' = ''echo s'' @ ''kill'' @ '' x''
   \<and> \<not> (test allow_systemctl ''echo skill x'' \<or> test allow_git ''echo skill x''
          \<or> test allow_package ''echo skill x'' \<or> test allow_docker ''echo skill x''
          \<or> test allow_kubectl ''echo skill x'')
   \<and> \<not> isCommandDangerous ''echo skill x''
   \<and> ''echo kill'' = toLowerCase (trim ''echo kill'')
   \<and> ''echo kill'' = ''echo '' @ ''kill'' @ []
   \<and> \<not> (test allow_systemctl ''echo kill'' \<or> test allow_git ''echo kill''
          \<or> test allow_package ''echo kill'' \<or> test allow_docker ''echo kill''
          \<or> test allow_kubectl ''echo kill'')
   \<and> \<not> isCommandDangerous ''echo kill''
   \<and> ''echo killer app'' = toLowerCase (trim ''echo killer app'')
   \<and> ''echo killer app'' = ''echo '' @ ''kill'' @ ''er app''
   \<and> \<not> (test allow_systemctl ''echo killer app'' \<or> test allow_git ''echo killer app''
          \<or> test allow_package ''echo killer app'' \<or> test allow_docker ''echo killer app''
          \<or> test allow_kubectl ''echo killer app'')
   \<and> \<not> isCommandDangerous ''echo killer app''"
  by code_simp










section \<open>The handlers: what they return and what they leave behind\<close>

lemma example_lookup: "get_conn example_server (Some ''u'') = Some example_session"
  by (simp add: get_conn_def example_server_def)

lemma not_space_backslash: "\<not> is_space (CHR 0x5C)"
  by code_simp

text \<open>The \<^verbatim>\<open>cd\<close> test passes only for input that begins with \<^verbatim>\<open>cd\s\<close>, letter for letter.\<close>

lemma cd_regex_only:
  assumes "test cd_regex s"
  shows "\<exists>rest. s = ''cd'' @ CHR 0x5C # CHR ''s'' # rest"
proof -
  from assms
  have "matches (Seq (str ''cd'') (Seq (Chr (CHR 0x5C)) (Seq (Plus (Chr CHR ''s'')) Eps)))
      (None, s)"
    unfolding cd_regex_def seqs_Cons seqs_Nil by (simp only: test_Bol)
  then obtain y
    where "y \<in> set (rmatch (Seq (str ''cd'') (Seq (Chr (CHR 0x5C))
        (Seq (Plus (Chr CHR ''s'')) Eps))) (None, s))"
    unfolding matches_def by (meson last_in_set)
  then obtain a b c where a: "a \<in> set (rmatch (str ''cd'') (None, s))"
    and b: "b \<in> set (rmatch (Chr (CHR 0x5C)) a)"
    and c: "c \<in> set (rmatch (Chr CHR ''s'') b)"
    by (blast dest: in_Seq in_Plus)
  from in_str [OF a] have 1: "s = ''cd'' @ snd a" by simp
  from b have 2: "snd a = CHR 0x5C # snd b" using step_nonempty [of b _ a] by auto
  from c have 3: "snd b = CHR ''s'' # snd c" using step_nonempty [of c _ b] by auto
  from 1 2 3 show ?thesis by simp
qed

lemma cd_space_no_probe: "is_space c \<Longrightarrow> \<not> test cd_regex (''cd'' @ c # rest)"
  using cd_regex_only [of "''cd'' @ c # rest"] not_space_backslash by auto

text \<open>
  C1. The claim: a command that begins with a directory change, such as \<^verbatim>\<open>cd /tmp\<close>, makes
  \<^verbatim>\<open>execute_command\<close> ask the remote side for its directory once more and store the
  answer in \<^verbatim>\<open>currentPath\<close>. The code: for a command whose trimmed form is \<^verbatim>\<open>cd\<close>, a
  white space character and anything after it, \<^verbatim>\<open>execute_command\<close> on an open session
  runs the command and nothing else: one \<^verbatim>\<open>exec\<close> is added to the transport events and
  the registry, \<^verbatim>\<open>currentPath\<close> included, stays as it was.
\<close>

theorem execute_command_cd_no_probe:
  assumes "get_conn st cid = Some conn"
    and "trim cmd = ''cd'' @ c # rest"
    and "is_space c"
  shows "snd (execute_command E st cid (Some cmd))
     = st\<lparr>trace := trace st @ [Exec (client conn) cmd]\<rparr>"
  using assms cd_space_no_probe [of c rest]
  by (simp add: execute_command_def wrapExec_def split: execOutcome.splits)

text \<open>
  In the scenario, after \<^verbatim>\<open>cd /tmp\<close> the remote side would answer \<^verbatim>\<open>pwd\<close> with
  \<^verbatim>\<open>/tmp\<close>, and the session still says \<^verbatim>\<open>/home/user\<close>.
\<close>

theorem execute_command_cd_no_probe_witness:
  "get_conn example_server (Some ''u'') = Some example_session
   \<and> trim ''cd /tmp'' = ''cd'' @ CHR '' '' # ''/tmp''
   \<and> is_space CHR '' ''
   \<and> snd (execute_command example_environment example_server (Some ''u'') (Some ''cd /tmp''))
       = example_server\<lparr>trace := trace example_server @ [Exec (client example_session) ''cd /tmp'']\<rparr>
   \<and> map (currentPath \<circ> snd) (connections
        (snd (execute_command example_environment example_server (Some ''u'') (Some ''cd /tmp''))))
       = [''/home/user'']
   \<and> remote example_environment
        (trace (snd (execute_command example_environment example_server (Some ''u'')
           (Some ''cd /tmp''))))
        0 ''pwd''
       = ExecResolved \<lparr>stdout = ''/tmp'' @ [CHR 0x0A], stderr = [], exitCode = Some 0\<rparr>"
proof -
  have t: "trim ''cd /tmp'' = ''cd'' @ CHR '' '' # ''/tmp''" by code_simp
  have w: "is_space CHR '' ''" by code_simp
  note r = execute_command_cd_no_probe [OF example_lookup t w, of example_environment]
  have p: "map (currentPath \<circ> snd) (connections
        (snd (execute_command example_environment example_server (Some ''u'') (Some ''cd /tmp''))))
       = [''/home/user'']"
    by (simp add: r) (simp add: example_server_def example_session_def)
  have q: "remote example_environment
        (trace (snd (execute_command example_environment example_server (Some ''u'')
           (Some ''cd /tmp''))))
        0 ''pwd''
       = ExecResolved \<lparr>stdout = ''/tmp'' @ [CHR 0x0A], stderr = [], exitCode = Some 0\<rparr>"
    by (simp add: r) (simp add: example_environment_def example_remote_def example_session_def)
  from example_lookup t w r p q show ?thesis by blast
qed

text \<open>
  The other half of that claim holds: a command that does not pass the \<^verbatim>\<open>cd\<close> test,
  such as \<^verbatim>\<open>ls\<close>, leaves the registry as it was.
\<close>

lemma execute_command_without_cd:
  assumes "\<not> test cd_regex (trim cmd)"
  shows "connections (snd (execute_command E st cid (Some cmd))) = connections st"
  using assms
  by (simp add: execute_command_def wrapExec_def split: option.splits execOutcome.splits)

lemma ls_no_cd: "\<not> test cd_regex (trim ''ls'')"
  by code_simp

lemma execute_command_ls:
  "connections (snd (execute_command E st cid (Some ''ls''))) = connections st"
  using execute_command_without_cd [OF ls_no_cd] .

text \<open>
  C2. On an open session a command that the classifier denies is rejected by
  \<^verbatim>\<open>secure_execute_command\<close> with its policy error, and the state of the process is what it
  was: no transport event is added (the command is never passed to \<^verbatim>\<open>exec\<close>) and the
  registry is unchanged.
\<close>

theorem secure_execute_command_denied:
  assumes "get_conn st cid = Some conn"
    and "isCommandDangerous c"
  shows "secure_execute_command E st cid (Some c) = (Rejected CommandNotAllowed, st)"
  using assms by (simp add: secure_execute_command_def dangerous_not_empty)

theorem secure_execute_command_denied_witness:
  "get_conn example_server (Some ''u'') = Some example_session
   \<and> isCommandDangerous ''rm -rf /''
   \<and> secure_execute_command example_environment example_server (Some ''u'') (Some ''rm -rf /'')
       = (Rejected CommandNotAllowed, example_server)"
  using example_lookup denied_rm
    secure_execute_command_denied [OF example_lookup denied_rm, of example_environment]
  by blast

text \<open>What a failed \<^verbatim>\<open>create_connection\<close> leaves behind.\<close>

lemma create_connection_unknown:
  assumes "m \<noteq> []" and "t \<noteq> []" and "findMachine E m = None"
  shows "create_connection E st (Some m) (Some t) = (Rejected (UnknownMachine m), st)"
  using assms by (simp add: create_connection_def falsy_def)

lemma create_connection_falsy:
  assumes "falsy mid \<or> falsy ttl"
  shows "create_connection E st mid ttl = (Rejected ArgumentsRequired, st)"
  using assms by (auto simp: create_connection_def)

lemma create_connection_rejected:
  assumes "create_connection E st mid ttl = (Rejected e, st')"
    and "\<forall>tr c cfg x. handshake E tr c cfg \<noteq> ConnectReadyThenError x"
  shows "connections st' = connections st \<and>
     (\<exists>evs. trace st' = trace st @ evs \<and> (\<forall>c. Ready c \<in> set evs \<longrightarrow> End c \<in> set evs))"
  using assms
  by (auto simp: create_connection_def Let_def wrapExec_def
      split: if_splits option.splits sum.splits connectOutcome.splits execOutcome.splits)

text \<open>
  C6, as the code has it. The check of the arguments comes before the lookup of the
  machine: with \<^verbatim>\<open>machine_id\<close> or \<^verbatim>\<open>title\<close> missing or empty, \<^verbatim>\<open>create_connection\<close> is
  rejected for its arguments; with both present and no machine of that identifier in the
  inventory it is rejected for the unknown machine; in both cases the state is what it
  was. Whenever \<^verbatim>\<open>create_connection\<close> is rejected and no \<^verbatim>\<open>error\<close> event has come after
  \<^verbatim>\<open>ready\<close>, the registry is unchanged, and every client that became ready during the
  call, which is the client of a failed \<^verbatim>\<open>pwd\<close>, has been ended.
\<close>

theorem create_connection_failures:
  "(m \<noteq> [] \<and> t \<noteq> [] \<and> findMachine E m = None \<longrightarrow>
      create_connection E st (Some m) (Some t) = (Rejected (UnknownMachine m), st))
   \<and> (falsy mid \<or> falsy ttl \<longrightarrow>
      create_connection E st mid ttl = (Rejected ArgumentsRequired, st))
   \<and> (create_connection E st mid ttl = (Rejected e, st')
        \<and> (\<forall>tr c cfg x. handshake E tr c cfg \<noteq> ConnectReadyThenError x) \<longrightarrow>
      connections st' = connections st
      \<and> (\<exists>evs. trace st' = trace st @ evs
            \<and> (\<forall>c. Ready c \<in> set evs \<longrightarrow> End c \<in> set evs)))"
  using create_connection_unknown [of m t E st] create_connection_falsy [of mid ttl E st]
    create_connection_rejected [of E st mid ttl e st']
  by blast

text \<open>
  In the scenario: an unknown machine; an empty title; and a remote side on which \<^verbatim>\<open>pwd\<close>
  cannot be started, where the client that became ready is ended and nothing is
  registered.
\<close>

theorem create_connection_failures_witness:
  "findMachine example_environment ''ghost'' = None
   \<and> create_connection example_environment example_server (Some ''ghost'') (Some ''demo'')
       = (Rejected (UnknownMachine ''ghost''), example_server)
   \<and> falsy (Some [])
   \<and> create_connection example_environment example_server (Some ''todo-server-01'') (Some [])
       = (Rejected ArgumentsRequired, example_server)
   \<and> create_connection example_closed_channel example_server (Some ''todo-server-01'')
        (Some ''demo'')
       = (Rejected (External ''Channel open failure''),
          example_server\<lparr>uuids := 2, clients := 2,
            trace := trace example_server
              @ [Connect 1 example_config, Ready 1, Exec 1 ''pwd'', End 1]\<rparr>)
   \<and> connections (example_server\<lparr>uuids := 2, clients := 2,
            trace := trace example_server
              @ [Connect 1 example_config, Ready 1, Exec 1 ''pwd'', End 1]\<rparr>)
       = connections example_server"
proof -
  have g: "findMachine example_environment ''ghost'' = None" by code_simp
  have f: "falsy (Some [])" by code_simp
  have r: "create_connection example_closed_channel example_server (Some ''todo-server-01'')
        (Some ''demo'')
       = (Rejected (External ''Channel open failure''),
          example_server\<lparr>uuids := 2, clients := 2,
            trace := trace example_server
              @ [Connect 1 example_config, Ready 1, Exec 1 ''pwd'', End 1]\<rparr>)"
    by code_simp
  have n: "\<forall>tr c cfg x. handshake example_closed_channel tr c cfg \<noteq> ConnectReadyThenError x"
    by (simp add: example_closed_channel_def example_environment_def)
  from g have 1: "create_connection example_environment example_server (Some ''ghost'')
      (Some ''demo'') = (Rejected (UnknownMachine ''ghost''), example_server)"
    using create_connection_failures [of "''ghost''" "''demo''" example_environment example_server]
    by simp
  from f have 2: "create_connection example_environment example_server
      (Some ''todo-server-01'') (Some []) = (Rejected ArgumentsRequired, example_server)"
    using create_connection_failures [of _ _ example_environment example_server
        "Some ''todo-server-01''" "Some []"]
    by simp
  from r n have 3: "connections (example_server\<lparr>uuids := 2, clients := 2,
            trace := trace example_server
              @ [Connect 1 example_config, Ready 1, Exec 1 ''pwd'', End 1]\<rparr>)
       = connections example_server"
    using create_connection_failures [of _ _ example_closed_channel example_server
        "Some ''todo-server-01''" "Some ''demo''"]
    by blast
  from g f r 1 2 3 show ?thesis by blast
qed

text \<open>
  Without the condition on the arguments, and with a teardown promised for every failure,
  the statement fails. The empty \<^verbatim>\<open>machine_id\<close> is not in the inventory, and neither is
  \<^verbatim>\<open>ghost\<close>, asked for with an empty title; both calls are rejected for their arguments,
  not for the unknown machine. And when the remote side refuses the connection, the
  handler rejects and does nothing else: the client it connected is never ended.
\<close>

theorem create_connection_unknown_counterexample:
  "findMachine example_environment [] = None
   \<and> fst (create_connection example_environment example_server (Some []) (Some ''demo''))
       = Rejected ArgumentsRequired
   \<and> fst (create_connection example_environment example_server (Some []) (Some ''demo''))
       \<noteq> Rejected (UnknownMachine [])
   \<and> findMachine example_environment ''ghost'' = None
   \<and> fst (create_connection example_environment example_server (Some ''ghost'') (Some []))
       = Rejected ArgumentsRequired
   \<and> fst (create_connection example_environment example_server (Some ''ghost'') (Some []))
       \<noteq> Rejected (UnknownMachine ''ghost'')
   \<and> create_connection example_refused example_server (Some ''todo-server-01'') (Some ''demo'')
       = (Rejected (External ''ECONNREFUSED''),
          example_server\<lparr>uuids := 2, clients := 2,
            trace := trace example_server @ [Connect 1 example_config]\<rparr>)
   \<and> End 1 \<notin> set (trace example_server @ [Connect 1 example_config])"
  by code_simp

text \<open>
  The case that the statement above leaves out. When the connection breaks after the
  handshake and \<^verbatim>\<open>pwd\<close> still answers, the \<^verbatim>\<open>error\<close> listener rejects the promise and the
  \<^verbatim>\<open>ready\<close> handler registers the session all the same: the call has failed, the registry
  has a new entry, and its client is not ended.
\<close>

lemma create_connection_error_after_ready:
  "create_connection example_late_error example_server (Some ''todo-server-01'') (Some ''demo'')
     = (Rejected (External ''ECONNRESET''),
        example_server\<lparr>uuids := 2, clients := 2,
          trace := trace example_server @ [Connect 1 example_config, Ready 1, Exec 1 ''pwd''],
          connections := connections example_server
            @ [(''uu'', \<lparr>connection_id = ''uu'', conn_machine_id = ''todo-server-01'',
                        title = ''demo'', currentPath = ''/home/user'', client = 1\<rparr>)]\<rparr>)"
  by code_simp

text \<open>What closing a session leaves behind.\<close>

lemma close_connection_absent:
  "get_conn st cid = None \<Longrightarrow> close_connection st cid = (Rejected (ConnectionNotFound cid), st)"
  by (simp add: close_connection_def)

lemma close_connection_present:
  assumes "close_connection st (Some k) = (Resolved Closed, st')"
  shows "(\<exists>conn. get_conn st (Some k) = Some conn
           \<and> st' = st\<lparr>trace := trace st @ [End (client conn)],
                      connections := AList.delete k (connections st)\<rparr>)
         \<and> get_conn st' (Some k) = None"
  using assms
  by (auto simp: close_connection_def get_conn_def delete_conv' split: option.splits)

text \<open>
  When no \<^verbatim>\<open>error\<close> event comes after \<^verbatim>\<open>ready\<close>, a call other than a
  \<^verbatim>\<open>create_connection\<close> that returns \<open>k\<close> does not register \<open>k\<close>.
\<close>

lemma callTool_absent:
  assumes "callTool E st name args = (p, st')" and "get_conn st (Some k) = None"
    and "created_id p \<noteq> Some k"
    and "\<forall>tr c cfg x. handshake E tr c cfg \<noteq> ConnectReadyThenError x"
  shows "get_conn st' (Some k) = None"
  using assms
  by (auto simp: callTool_def create_connection_def execute_command_def
      secure_execute_command_def close_connection_def Let_def wrapExec_def created_id_def
      summary_of_def get_available_connections_def get_connections_def get_conn_def
      update_conv' delete_conv'
      split: if_splits option.splits sum.splits connectOutcome.splits execOutcome.splits)

lemma run_absent:
  "get_conn st (Some k) = None \<Longrightarrow> k \<notin> set (created_ids (fst (run E st calls)))
   \<Longrightarrow> \<forall>tr c cfg x. handshake E tr c cfg \<noteq> ConnectReadyThenError x
   \<Longrightarrow> get_conn (snd (run E st calls)) (Some k) = None"
proof (induction calls arbitrary: st)
  case Nil
  then show ?case by simp
next
  case (Cons call calls)
  obtain name args where call: "call = (name, args)" by (cases call)
  obtain p st' where step: "callTool E st name args = (p, st')"
    by (cases "callTool E st name args")
  obtain ps st'' where rest: "run E st' calls = (ps, st'')" by (cases "run E st' calls")
  from Cons.prems(2) call step rest
  have p: "created_id p \<noteq> Some k" and ps: "k \<notin> set (created_ids ps)"
    by (auto simp: created_ids_def split: option.splits)
  from callTool_absent [OF step Cons.prems(1) p Cons.prems(3)]
  have "get_conn st' (Some k) = None" .
  from Cons.IH [OF this _ Cons.prems(3)] ps rest have "get_conn st'' (Some k) = None" by simp
  with call step rest show ?case by simp
qed

text \<open>The identifiers that a run returns.\<close>

lemma callTool_uuid:
  assumes "callTool E st name args = (p, st')"
  shows "uuids st \<le> uuids st' \<and>
         (\<forall>i. created_id p = Some i \<longrightarrow> i = randomUUID E (uuids st) \<and> uuids st < uuids st')"
  using assms
  by (auto simp: callTool_def create_connection_def execute_command_def
      secure_execute_command_def close_connection_def Let_def wrapExec_def created_id_def
      summary_of_def get_available_connections_def get_connections_def
      split: if_splits option.splits sum.splits connectOutcome.splits execOutcome.splits)

lemma run_ids:
  "i \<in> set (created_ids (fst (run E st calls))) \<Longrightarrow> \<exists>n\<ge>uuids st. i = randomUUID E n"
proof (induction calls arbitrary: st)
  case Nil
  then show ?case by (simp add: created_ids_def)
next
  case (Cons call calls)
  obtain name args where call: "call = (name, args)" by (cases call)
  obtain p st' where step: "callTool E st name args = (p, st')"
    by (cases "callTool E st name args")
  obtain ps st'' where rest: "run E st' calls = (ps, st'')" by (cases "run E st' calls")
  from callTool_uuid [OF step] have le: "uuids st \<le> uuids st'"
    and new: "\<And>j. created_id p = Some j \<Longrightarrow> j = randomUUID E (uuids st)" by auto
  from Cons.prems call step rest
  have "created_id p = Some i \<or> i \<in> set (created_ids ps)"
    by (auto simp: created_ids_def split: option.splits)
  then show ?case
  proof
    assume "created_id p = Some i"
    with new show ?thesis by blast
  next
    assume "i \<in> set (created_ids ps)"
    with rest have "i \<in> set (created_ids (fst (run E st' calls)))" by simp
    from Cons.IH [OF this] obtain n where "uuids st' \<le> n" "i = randomUUID E n" by blast
    with le have "uuids st \<le> n \<and> i = randomUUID E n" by simp
    then show ?thesis by blast
  qed
qed

text \<open>
  Whatever the events, a call registers \<open>k\<close> only when it draws \<open>k\<close> from
  \<^verbatim>\<open>crypto.randomUUID\<close>.
\<close>

lemma callTool_absent_drawn:
  assumes "callTool E st name args = (p, st')" and "get_conn st (Some k) = None"
    and "uuids st < uuids st' \<Longrightarrow> randomUUID E (uuids st) \<noteq> k"
  shows "get_conn st' (Some k) = None"
  using assms
  by (auto simp: callTool_def create_connection_def execute_command_def
      secure_execute_command_def close_connection_def Let_def wrapExec_def
      get_conn_def update_conv' delete_conv'
      split: if_splits option.splits sum.splits connectOutcome.splits execOutcome.splits)

lemma run_uuids_mono: "uuids st \<le> uuids (snd (run E st calls))"
proof (induction calls arbitrary: st)
  case Nil
  show ?case by simp
next
  case (Cons call calls)
  obtain name args where call: "call = (name, args)" by (cases call)
  obtain p st' where step: "callTool E st name args = (p, st')"
    by (cases "callTool E st name args")
  obtain ps st'' where rest: "run E st' calls = (ps, st'')" by (cases "run E st' calls")
  from callTool_uuid [OF step] have "uuids st \<le> uuids st'" by simp
  also from Cons.IH [of st'] rest have "uuids st' \<le> uuids st''" by simp
  finally show ?case using call step rest by simp
qed

lemma run_absent_drawn:
  "get_conn st (Some k) = None
   \<Longrightarrow> \<forall>j. uuids st \<le> j \<and> j < uuids (snd (run E st calls)) \<longrightarrow> randomUUID E j \<noteq> k
   \<Longrightarrow> get_conn (snd (run E st calls)) (Some k) = None"
proof (induction calls arbitrary: st)
  case Nil
  then show ?case by simp
next
  case (Cons call calls)
  obtain name args where call: "call = (name, args)" by (cases call)
  obtain p st' where step: "callTool E st name args = (p, st')"
    by (cases "callTool E st name args")
  obtain ps st'' where rest: "run E st' calls = (ps, st'')" by (cases "run E st' calls")
  from call step rest have later: "snd (run E st (call # calls)) = st''" by simp
  from callTool_uuid [OF step] have le: "uuids st \<le> uuids st'" by simp
  from run_uuids_mono [of st' E calls] rest have le': "uuids st' \<le> uuids st''" by simp
  have "uuids st < uuids st' \<Longrightarrow> randomUUID E (uuids st) \<noteq> k"
    using Cons.prems(2) later le' by simp
  from callTool_absent_drawn [OF step Cons.prems(1) this]
  have absent: "get_conn st' (Some k) = None" .
  have "\<forall>j. uuids st' \<le> j \<and> j < uuids (snd (run E st' calls)) \<longrightarrow> randomUUID E j \<noteq> k"
    using Cons.prems(2) later le rest by simp
  from Cons.IH [OF absent this] rest have "get_conn st'' (Some k) = None" by simp
  with later show ?case by simp
qed

text \<open>
  In a run from the empty state every key of the registry is a value that
  \<^verbatim>\<open>crypto.randomUUID\<close> has returned already.
\<close>

lemma callTool_known:
  assumes "callTool E st name args = (p, st')"
    and "\<And>k. map_of (connections st) k \<noteq> None \<Longrightarrow> \<exists>n<uuids st. k = randomUUID E n"
    and "map_of (connections st') k \<noteq> None"
  shows "\<exists>n<uuids st'. k = randomUUID E n"
proof -
  from assms(1,3)
  have "(map_of (connections st) k \<noteq> None \<and> uuids st \<le> uuids st')
      \<or> (k = randomUUID E (uuids st) \<and> uuids st < uuids st')"
    by (auto simp: callTool_def create_connection_def execute_command_def
        secure_execute_command_def close_connection_def Let_def wrapExec_def
        get_conn_def update_conv' delete_conv'
        split: if_splits option.splits sum.splits connectOutcome.splits execOutcome.splits)
  then show ?thesis
  proof
    assume a: "map_of (connections st) k \<noteq> None \<and> uuids st \<le> uuids st'"
    with assms(2) [of k] obtain n where "n < uuids st" "k = randomUUID E n" by blast
    with a have "n < uuids st' \<and> k = randomUUID E n" by simp
    then show ?thesis by blast
  next
    assume "k = randomUUID E (uuids st) \<and> uuids st < uuids st'"
    then show ?thesis by blast
  qed
qed

lemma run_known:
  assumes "\<And>k. map_of (connections st) k \<noteq> None \<Longrightarrow> \<exists>n<uuids st. k = randomUUID E n"
    and "map_of (connections (snd (run E st calls))) k \<noteq> None"
  shows "\<exists>n<uuids (snd (run E st calls)). k = randomUUID E n"
  using assms
proof (induction calls arbitrary: st k)
  case Nil
  then show ?case by simp
next
  case (Cons call calls)
  obtain name args where call: "call = (name, args)" by (cases call)
  obtain p st' where step: "callTool E st name args = (p, st')"
    by (cases "callTool E st name args")
  obtain ps st'' where rest: "run E st' calls = (ps, st'')" by (cases "run E st' calls")
  have known: "\<And>j. map_of (connections st') j \<noteq> None \<Longrightarrow> \<exists>n<uuids st'. j = randomUUID E n"
    using callTool_known [OF step Cons.prems(1)] by blast
  from Cons.prems(2) call step rest have "map_of (connections (snd (run E st' calls))) k \<noteq> None"
    by simp
  from Cons.IH [OF known this] call step rest show ?case by simp
qed

lemma closed_id_not_returned_again:
  assumes inj: "inj (randomUUID E)"
    and reach: "st = snd (run E initial before)"
    and close: "close_connection st (Some k) = (Resolved Closed, st')"
  shows "k \<notin> set (created_ids (fst (run E st' calls)))"
proof
  assume "k \<in> set (created_ids (fst (run E st' calls)))"
  from run_ids [OF this] obtain m where m: "uuids st' \<le> m" "k = randomUUID E m" by blast
  from close have present: "map_of (connections st) k \<noteq> None" and same: "uuids st' = uuids st"
    by (auto simp: close_connection_def get_conn_def split: option.splits)
  have "\<exists>n<uuids (snd (run E initial before)). k = randomUUID E n"
  proof (rule run_known)
    show "\<And>j. map_of (connections initial) j \<noteq> None \<Longrightarrow> \<exists>n<uuids initial. j = randomUUID E n"
      by (simp add: initial_def)
    show "map_of (connections (snd (run E initial before))) k \<noteq> None"
      using present reach by simp
  qed
  with reach obtain n where n: "n < uuids st" "k = randomUUID E n" by auto
  from m n inj have "m = n" by (auto dest: injD)
  with m n same show False by simp
qed

lemma closed_id_never_drawn:
  assumes inj: "inj (randomUUID E)"
    and reach: "st = snd (run E initial before)"
    and close: "close_connection st (Some k) = (Resolved Closed, st')"
    and le: "uuids st' \<le> j"
  shows "randomUUID E j \<noteq> k"
proof
  assume eq: "randomUUID E j = k"
  from close have present: "map_of (connections st) k \<noteq> None" and same: "uuids st' = uuids st"
    by (auto simp: close_connection_def get_conn_def split: option.splits)
  have "\<exists>n<uuids (snd (run E initial before)). k = randomUUID E n"
  proof (rule run_known)
    show "\<And>j. map_of (connections initial) j \<noteq> None \<Longrightarrow> \<exists>n<uuids initial. j = randomUUID E n"
      by (simp add: initial_def)
    show "map_of (connections (snd (run E initial before))) k \<noteq> None"
      using present reach by simp
  qed
  with reach obtain n where n: "n < uuids st" "k = randomUUID E n" by auto
  from eq n inj have "j = n" by (auto dest: injD)
  with le n same show False by simp
qed

lemma later_absent:
  assumes close: "close_connection st (Some k) = (Resolved Closed, st')"
    and how: "((\<forall>tr c cfg x. handshake E tr c cfg \<noteq> ConnectReadyThenError x)
          \<and> k \<notin> set (created_ids (fst (run E st' calls))))
        \<or> (\<forall>j. uuids st' \<le> j \<and> j < uuids (snd (run E st' calls)) \<longrightarrow> randomUUID E j \<noteq> k)"
  shows "get_conn (snd (run E st' calls)) (Some k) = None"
proof -
  from close_connection_present [OF close] have absent: "get_conn st' (Some k) = None" by blast
  from how show ?thesis
  proof
    assume "(\<forall>tr c cfg x. handshake E tr c cfg \<noteq> ConnectReadyThenError x)
          \<and> k \<notin> set (created_ids (fst (run E st' calls)))"
    with run_absent [OF absent, of E calls] show ?thesis by blast
  next
    assume "\<forall>j. uuids st' \<le> j \<and> j < uuids (snd (run E st' calls)) \<longrightarrow> randomUUID E j \<noteq> k"
    from run_absent_drawn [OF absent this] show ?thesis .
  qed
qed

lemma not_found_when_absent:
  assumes "get_conn st (Some k) = None"
  shows "close_connection st (Some k) = (Rejected (ConnectionNotFound (Some k)), st)"
    and "trim c \<noteq> [] \<Longrightarrow>
         execute_command E st (Some k) (Some c) = (Rejected (ConnectionNotFound (Some k)), st)"
    and "trim c \<noteq> [] \<Longrightarrow>
         secure_execute_command E st (Some k) (Some c)
           = (Rejected (ConnectionNotFound (Some k)), st)"
  using assms
  by (simp_all add: close_connection_def execute_command_def secure_execute_command_def)

lemma empty_command_rejected:
  assumes "trim c = []"
  shows "execute_command E st cid (Some c) = (Rejected CommandEmpty, st)"
    and "secure_execute_command E st cid (Some c) = (Rejected CommandEmpty, st)"
  using assms by (simp_all add: execute_command_def secure_execute_command_def)

text \<open>
  C7, as the code has it. \<^verbatim>\<open>close_connection\<close> on an identifier that is not in the
  registry is rejected as not found and changes nothing. When \<^verbatim>\<open>close_connection\<close> on \<open>k\<close>
  resolves, the client of the session has been ended and the entry of \<open>k\<close> deleted; from
  then on, after any further calls among which no \<^verbatim>\<open>create_connection\<close> returns \<open>k\<close> again
  (no \<^verbatim>\<open>error\<close> event coming after \<^verbatim>\<open>ready\<close>), or during which \<^verbatim>\<open>crypto.randomUUID\<close>
  does not return \<open>k\<close> again,
  \<open>k\<close> is not in the registry, \<^verbatim>\<open>close_connection\<close> on \<open>k\<close> is rejected as not found, and
  so are \<^verbatim>\<open>execute_command\<close> and \<^verbatim>\<open>secure_execute_command\<close> on \<open>k\<close> when their command is
  not empty after trimming. With a command that is empty after trimming they are rejected
  for the empty command, the check that comes before the lookup. In a run from the empty
  state, when \<^verbatim>\<open>crypto.randomUUID\<close> never returns the same value twice, no later
  \<^verbatim>\<open>create_connection\<close> returns \<open>k\<close> again and \<open>k\<close> is never drawn again.
\<close>

theorem close_connection_then_not_found:
  "(get_conn st cid = None \<longrightarrow>
      close_connection st cid = (Rejected (ConnectionNotFound cid), st))
   \<and> (close_connection st (Some k) = (Resolved Closed, st') \<longrightarrow>
      (\<exists>conn. get_conn st (Some k) = Some conn
         \<and> st' = st\<lparr>trace := trace st @ [End (client conn)],
                    connections := AList.delete k (connections st)\<rparr>)
      \<and> (\<forall>calls later.
            (((\<forall>tr c cfg x. handshake E tr c cfg \<noteq> ConnectReadyThenError x)
                \<and> k \<notin> set (created_ids (fst (run E st' calls))))
              \<or> (\<forall>j. uuids st' \<le> j \<and> j < uuids (snd (run E st' calls))
                    \<longrightarrow> randomUUID E j \<noteq> k))
            \<and> later = snd (run E st' calls)
            \<longrightarrow> get_conn later (Some k) = None
              \<and> close_connection later (Some k) = (Rejected (ConnectionNotFound (Some k)), later)
              \<and> (\<forall>c. trim c \<noteq> [] \<longrightarrow>
                    execute_command E later (Some k) (Some c)
                      = (Rejected (ConnectionNotFound (Some k)), later)
                    \<and> secure_execute_command E later (Some k) (Some c)
                      = (Rejected (ConnectionNotFound (Some k)), later))
              \<and> (\<forall>c. trim c = [] \<longrightarrow>
                    execute_command E later (Some k) (Some c) = (Rejected CommandEmpty, later)
                    \<and> secure_execute_command E later (Some k) (Some c)
                      = (Rejected CommandEmpty, later))))
   \<and> (inj (randomUUID E) \<and> st = snd (run E initial before)
        \<and> close_connection st (Some k) = (Resolved Closed, st')
      \<longrightarrow> k \<notin> set (created_ids (fst (run E st' further)))
        \<and> (\<forall>j. uuids st' \<le> j \<longrightarrow> randomUUID E j \<noteq> k))"
proof (intro conjI impI allI)
  assume "inj (randomUUID E) \<and> st = snd (run E initial before)
        \<and> close_connection st (Some k) = (Resolved Closed, st')"
  then show "k \<notin> set (created_ids (fst (run E st' further)))"
    using closed_id_not_returned_again [of E st before k st' further] by blast
next
  fix j
  assume "inj (randomUUID E) \<and> st = snd (run E initial before)
        \<and> close_connection st (Some k) = (Resolved Closed, st')"
    and "uuids st' \<le> j"
  then show "randomUUID E j \<noteq> k"
    using closed_id_never_drawn [of E st before k st' j] by blast
next
  assume "get_conn st cid = None"
  then show "close_connection st cid = (Rejected (ConnectionNotFound cid), st)"
    by (rule close_connection_absent)
next
  assume "close_connection st (Some k) = (Resolved Closed, st')"
  from close_connection_present [OF this]
  show "\<exists>conn. get_conn st (Some k) = Some conn
         \<and> st' = st\<lparr>trace := trace st @ [End (client conn)],
                    connections := AList.delete k (connections st)\<rparr>"
    by blast
next
  fix calls later
  assume c: "close_connection st (Some k) = (Resolved Closed, st')"
    and l: "(((\<forall>tr c cfg x. handshake E tr c cfg \<noteq> ConnectReadyThenError x)
                \<and> k \<notin> set (created_ids (fst (run E st' calls))))
              \<or> (\<forall>j. uuids st' \<le> j \<and> j < uuids (snd (run E st' calls))
                    \<longrightarrow> randomUUID E j \<noteq> k))
            \<and> later = snd (run E st' calls)"
  from l have how: "((\<forall>tr c cfg x. handshake E tr c cfg \<noteq> ConnectReadyThenError x)
          \<and> k \<notin> set (created_ids (fst (run E st' calls))))
        \<or> (\<forall>j. uuids st' \<le> j \<and> j < uuids (snd (run E st' calls)) \<longrightarrow> randomUUID E j \<noteq> k)"
    and later: "later = snd (run E st' calls)"
    by blast+
  from later_absent [OF c how] later have a: "get_conn later (Some k) = None" by simp
  show "get_conn later (Some k) = None" by (rule a)
  show "close_connection later (Some k) = (Rejected (ConnectionNotFound (Some k)), later)"
    by (rule not_found_when_absent(1) [OF a])
  {
    fix c assume "trim c \<noteq> []"
    then show "execute_command E later (Some k) (Some c)
        = (Rejected (ConnectionNotFound (Some k)), later)"
      by (rule not_found_when_absent(2) [OF a])
  }
  {
    fix c assume "trim c \<noteq> []"
    then show "secure_execute_command E later (Some k) (Some c)
        = (Rejected (ConnectionNotFound (Some k)), later)"
      by (rule not_found_when_absent(3) [OF a])
  }
  {
    fix c assume "trim c = []"
    then show "execute_command E later (Some k) (Some c) = (Rejected CommandEmpty, later)"
      by (rule empty_command_rejected(1))
  }
  {
    fix c assume "trim c = []"
    then show "secure_execute_command E later (Some k) (Some c) = (Rejected CommandEmpty, later)"
      by (rule empty_command_rejected(2))
  }
qed

text \<open>
  In the scenario: closing an identifier that was never given out; closing the open
  session; and the three calls on the closed session, with the command \<^verbatim>\<open>ls\<close>.
\<close>

theorem close_connection_then_not_found_witness:
  "get_conn example_server (Some ''ghost'') = None
   \<and> close_connection example_server (Some ''ghost'')
       = (Rejected (ConnectionNotFound (Some ''ghost'')), example_server)
   \<and> close_connection example_server (Some ''u'') = (Resolved Closed, example_closed)
   \<and> trim ''ls'' \<noteq> []
   \<and> get_conn example_closed (Some ''u'') = None
   \<and> close_connection example_closed (Some ''u'')
       = (Rejected (ConnectionNotFound (Some ''u'')), example_closed)
   \<and> execute_command example_environment example_closed (Some ''u'') (Some ''ls'')
       = (Rejected (ConnectionNotFound (Some ''u'')), example_closed)
   \<and> secure_execute_command example_environment example_closed (Some ''u'') (Some ''ls'')
       = (Rejected (ConnectionNotFound (Some ''u'')), example_closed)"
proof -
  have g: "get_conn example_server (Some ''ghost'') = None" by code_simp
  have c: "close_connection example_server (Some ''u'') = (Resolved Closed, example_closed)"
    by code_simp
  have t: "trim ''ls'' \<noteq> []" by code_simp
  have n: "((\<forall>tr c cfg x. handshake example_environment tr c cfg \<noteq> ConnectReadyThenError x)
        \<and> ''u'' \<notin> set (created_ids (fst (run example_environment example_closed []))))
      \<and> example_closed = snd (run example_environment example_closed [])"
    by (simp add: created_ids_def example_environment_def)
  note inst = close_connection_then_not_found
    [of example_server "Some ''ghost''" "''u''" example_closed example_environment]
  from inst g have 1: "close_connection example_server (Some ''ghost'')
       = (Rejected (ConnectionNotFound (Some ''ghost'')), example_server)"
    by blast
  from inst c n have 2: "get_conn example_closed (Some ''u'') = None
      \<and> close_connection example_closed (Some ''u'')
          = (Rejected (ConnectionNotFound (Some ''u'')), example_closed)
      \<and> (\<forall>c. trim c \<noteq> [] \<longrightarrow>
            execute_command example_environment example_closed (Some ''u'') (Some c)
              = (Rejected (ConnectionNotFound (Some ''u'')), example_closed)
            \<and> secure_execute_command example_environment example_closed (Some ''u'') (Some c)
              = (Rejected (ConnectionNotFound (Some ''u'')), example_closed))"
    by blast
  from g c t 1 2 show ?thesis by blast
qed

text \<open>
  Without the condition on the command the statement fails: after the session of
  the scenario is closed, \<^verbatim>\<open>execute_command\<close> and \<^verbatim>\<open>secure_execute_command\<close> on its
  identifier with the empty command are rejected for the empty command, not as not found.
\<close>

theorem close_connection_then_empty_command_counterexample:
  "close_connection example_server (Some ''u'') = (Resolved Closed, example_closed)
   \<and> fst (execute_command example_environment example_closed (Some ''u'') (Some []))
       = Rejected CommandEmpty
   \<and> fst (execute_command example_environment example_closed (Some ''u'') (Some []))
       \<noteq> Rejected (ConnectionNotFound (Some ''u''))
   \<and> fst (secure_execute_command example_environment example_closed (Some ''u'') (Some []))
       = Rejected CommandEmpty
   \<and> fst (secure_execute_command example_environment example_closed (Some ''u'') (Some []))
       \<noteq> Rejected (ConnectionNotFound (Some ''u''))"
  by code_simp

text \<open>
  C8. \<^verbatim>\<open>create_connection\<close> returns the value of \<^verbatim>\<open>crypto.randomUUID\<close> that it drew, and
  every call that gets as far draws a new one. So when \<^verbatim>\<open>crypto.randomUUID\<close> never returns
  the same value twice, the identifiers returned in a run of the process, from any state
  and through any calls, closing included, are pairwise distinct.
\<close>

theorem connection_ids_distinct:
  assumes "inj (randomUUID E)"
  shows "distinct (created_ids (fst (run E st calls)))"
proof (induction calls arbitrary: st)
  case Nil
  show ?case by (simp add: created_ids_def)
next
  case (Cons call calls)
  obtain name args where call: "call = (name, args)" by (cases call)
  obtain p st' where step: "callTool E st name args = (p, st')"
    by (cases "callTool E st name args")
  obtain ps st'' where rest: "run E st' calls = (ps, st'')" by (cases "run E st' calls")
  have ih: "distinct (created_ids ps)" using Cons.IH [of st'] rest by simp
  show ?case
  proof (cases "created_id p")
    case None
    with call step rest ih show ?thesis by (simp add: created_ids_def)
  next
    case (Some i)
    with callTool_uuid [OF step]
    have i: "i = randomUUID E (uuids st)" and lt: "uuids st < uuids st'"
      by auto
    have "i \<notin> set (created_ids ps)"
    proof
      assume "i \<in> set (created_ids ps)"
      with rest have "i \<in> set (created_ids (fst (run E st' calls)))" by simp
      from run_ids [OF this] obtain n where "n \<ge> uuids st'" "i = randomUUID E n" by blast
      with i lt assms show False by (auto dest: injD)
    qed
    with Some call step rest ih show ?thesis by (simp add: created_ids_def)
  qed
qed

text \<open>
  In the scenario the identifiers are \<^verbatim>\<open>u\<close>, \<^verbatim>\<open>uu\<close>, and so on; opening a session,
  closing it and opening another returns \<^verbatim>\<open>u\<close> and then \<^verbatim>\<open>uu\<close>.
\<close>

theorem connection_ids_distinct_witness:
  "inj (randomUUID example_environment)
   \<and> fst (run example_environment initial example_calls)
       = [Resolved (Created (''u'', ''todo-server-01'', ''demo'', ''/home/user'')),
          Resolved Closed,
          Resolved (Created (''uu'', ''todo-server-01'', ''again'', ''/home/user''))]
   \<and> created_ids (fst (run example_environment initial example_calls)) = [''u'', ''uu'']
   \<and> distinct (created_ids (fst (run example_environment initial example_calls)))"
proof -
  have i: "inj (randomUUID example_environment)"
  proof (rule injI)
    fix a b assume "randomUUID example_environment a = randomUUID example_environment b"
    then have "length (replicate (Suc a) CHR ''u'') = length (replicate (Suc b) CHR ''u'')"
      by (simp add: example_environment_def)
    then show "a = b" by simp
  qed
  have r: "fst (run example_environment initial example_calls)
       = [Resolved (Created (''u'', ''todo-server-01'', ''demo'', ''/home/user'')),
          Resolved Closed,
          Resolved (Created (''uu'', ''todo-server-01'', ''again'', ''/home/user''))]"
    by code_simp
  have c: "created_ids (fst (run example_environment initial example_calls)) = [''u'', ''uu'']"
    by code_simp
  from connection_ids_distinct [OF i, of initial example_calls] i r c show ?thesis by blast
qed

text \<open>The scenario's open session is what \<^verbatim>\<open>create_connection\<close> makes of the empty state.\<close>

lemma example_server_created:
  "create_connection example_environment initial (Some ''todo-server-01'') (Some ''demo'')
     = (Resolved (Created (''u'', ''todo-server-01'', ''demo'', ''/home/user'')), example_server)"
  by code_simp

end
